theory Spec2Isabelle
  imports Complex_Main
begin

section \<open>The page script \<open>src/scripts/main.js\<close>: data model\<close>

text \<open>
  The script drives a third-party animation engine (GSAP and its ScrollTrigger plugin) over
  the elements of a page. The model keeps what the script can observe of the browser and of
  the engine in one record, \<open>world\<close>, and every function of the script becomes a function
  on that record. DOM elements, tweens and timelines are identified by natural numbers
  (a tween handle is the index of the tween in the engine's list).

  Conventions of the model:
  \<^item> a JavaScript value that the script only tests for truthiness (\<open>window.gsap\<close>,
    \<open>this.ScrollTrigger\<close>, ...) is a \<open>bool\<close>: present or absent;
  \<^item> a thrown exception is the left summand of \<open>result\<close>, together with the world as it
    was when the exception left the function (mutations made before a throw persist);
  \<^item> the engine's own methods (\<open>gsap.to\<close>, \<open>gsap.set\<close>, \<open>tween.kill\<close>,
    \<open>ScrollTrigger.batch\<close>, ...) do not throw and have the effect the engine documents;
    two are parameters: \<open>gsap.registerPlugin\<close>, which may throw, and the choice of the
    tweens that \<open>gsap.killTweensOf("*")\<close> kills;
  \<^item> \<open>trace\<close> is a ghost log: console output, entries of the controller's methods and
    class-list mutations, in the order in which they happen.
\<close>

text \<open>
  The values of a tween's variables. A number that the script computes from a loop index and
  constant (\<open>1 + index * 0.3\<close>, \<open>index * 0.1\<close>, \<open>4 + index\<close>) is kept as the expression that
  computes it: JavaScript evaluates it in IEEE 754 doubles, where it need not be the
  rational number that the expression denotes, and the model does not evaluate it.
\<close>

datatype arith = Lit rat | Plus arith arith | Times arith arith

datatype jsval = Num rat | Computed arith | Str string | Bool bool | ByIndex "nat \<Rightarrow> rat"

type_synonym vars = "(string \<times> jsval) list"

datatype target =
    Selector string
  | SelectorList "string list"
  | Element "nat option"
  | Elements "nat list"

record tween =
  tw_target :: target
  tw_vars :: vars
  tw_timeline :: "nat option"
  tw_position :: "string option"
  tw_origin :: string
  tw_killed :: bool

record trigger =
  tr_trigger :: target
  tr_batch :: bool
  tr_start :: string
  tr_once :: bool
  tr_reveals :: target
  tr_vars :: vars
  tr_entered :: "nat list"
  tr_killed :: bool

datatype exn = TypeError string | Thrown string

datatype msg =
    GsapLoaded
  | PluginRegistrationFailed exn
  | GsapFailedToLoad
  | AnimationsInitialized

datatype entry =
    Enter string
  | ConsoleLog msg
  | ConsoleWarn msg
  | ClassAdd nat string
  | ClassRemove nat string

datatype node = StyleElement "string list"

record card_closure =
  cc_card :: nat
  cc_hoverTween :: "nat option"

record btn_closure =
  bc_btn :: nat
  bc_icon :: "nat option"
  bc_buttonTween :: "nat option"
  bc_iconTween :: "nat option"

record scroll_closure =
  sc_header :: nat
  sc_isScrolled :: bool

record world =
  win_gsap :: bool
  win_ScrollTrigger :: bool
  win_ScrollToPlugin :: bool
  win_matchMedia :: "bool option"
  pageYOffset :: rat
  docScrollTop :: rat
  qsa :: "string \<Rightarrow> nat list"
  qsa_in :: "nat \<Rightarrow> string \<Rightarrow> nat list"
  classes :: "nat \<Rightarrow> string list"
  head_children :: "node list"
  ctl_gsap :: bool
  ctl_ScrollTrigger :: bool
  isInitialized :: bool
  cardHoverTweens :: "(nat \<times> nat option) list"
  plugins :: "string list"
  gsap_configs :: "vars list"
  st_configs :: "vars list"
  gsap_sets :: "(target \<times> vars) list"
  timelines :: "vars list"
  tweens :: "tween list"
  triggers :: "trigger list"
  st_refreshes :: nat
  cardClosures :: "card_closure list"
  btnClosures :: "btn_closure list"
  scrollClosures :: "scroll_closure list"
  anchorListeners :: "nat list"
  trace :: "entry list"

type_synonym result = "(exn \<times> world) + world"

text \<open>The world an outcome leaves behind, whether the function returned or threw.\<close>

fun world_of :: "result \<Rightarrow> world" where
  "world_of (Inl (e, w)) = w"
| "world_of (Inr w) = w"

text \<open>Sequencing: the second function runs only if the first one returned.\<close>

fun and_then :: "result \<Rightarrow> (world \<Rightarrow> result) \<Rightarrow> result" where
  "and_then (Inl ew) f = Inl ew"
| "and_then (Inr w) f = f w"

definition emit :: "entry \<Rightarrow> world \<Rightarrow> world" where
  "emit e w = w\<lparr>trace := trace w @ [e]\<rparr>"

subsection \<open>The document\<close>

text \<open>\<open>document.querySelector\<close> is the first match of \<open>querySelectorAll\<close>, or null.\<close>

definition querySelector :: "world \<Rightarrow> string \<Rightarrow> nat option" where
  "querySelector w s = (case qsa w s of [] \<Rightarrow> None | x # _ \<Rightarrow> Some x)"

definition querySelector_in :: "world \<Rightarrow> nat \<Rightarrow> string \<Rightarrow> nat option" where
  "querySelector_in w el s = (case qsa_in w el s of [] \<Rightarrow> None | x # _ \<Rightarrow> Some x)"

text \<open>The elements that a target of the engine stands for.\<close>

fun elements_of :: "world \<Rightarrow> target \<Rightarrow> nat list" where
  "elements_of w (Selector s) = qsa w s"
| "elements_of w (SelectorList ss) = concat (map (qsa w) ss)"
| "elements_of w (Element None) = []"
| "elements_of w (Element (Some el)) = [el]"
| "elements_of w (Elements els) = els"

text \<open>\<open>classList.add\<close> and \<open>classList.remove\<close>: a class list holds a token at most once.\<close>

definition classList_add :: "nat \<Rightarrow> string \<Rightarrow> world \<Rightarrow> world" where
  "classList_add el c w =
     emit (ClassAdd el c)
       (w\<lparr>classes := (classes w)(el := (if c \<in> set (classes w el) then classes w el
                                          else classes w el @ [c]))\<rparr>)"

definition classList_remove :: "nat \<Rightarrow> string \<Rightarrow> world \<Rightarrow> world" where
  "classList_remove el c w =
     emit (ClassRemove el c)
       (w\<lparr>classes := (classes w)(el := filter (\<lambda>x. x \<noteq> c) (classes w el))\<rparr>)"

subsection \<open>The engine, as far as the script uses it\<close>

definition gsap_config :: "vars \<Rightarrow> world \<Rightarrow> world" where
  "gsap_config v w = w\<lparr>gsap_configs := gsap_configs w @ [v]\<rparr>"

definition ScrollTrigger_config :: "vars \<Rightarrow> world \<Rightarrow> world" where
  "ScrollTrigger_config v w = w\<lparr>st_configs := st_configs w @ [v]\<rparr>"

definition gsap_set :: "target \<Rightarrow> vars \<Rightarrow> world \<Rightarrow> world" where
  "gsap_set t v w = w\<lparr>gsap_sets := gsap_sets w @ [(t, v)]\<rparr>"

text \<open>\<open>gsap.to\<close> creates a tween and returns its handle, here the index of the new tween.\<close>

definition new_tween :: "string \<Rightarrow> target \<Rightarrow> vars \<Rightarrow> nat option \<Rightarrow> string option \<Rightarrow> tween" where
  "new_tween origin t v tline pos =
     \<lparr>tw_target = t, tw_vars = v, tw_timeline = tline, tw_position = pos,
      tw_origin = origin, tw_killed = False\<rparr>"

definition gsap_to :: "string \<Rightarrow> target \<Rightarrow> vars \<Rightarrow> world \<Rightarrow> world" where
  "gsap_to origin t v w = w\<lparr>tweens := tweens w @ [new_tween origin t v None None]\<rparr>"

definition gsap_timeline :: "vars \<Rightarrow> world \<Rightarrow> world" where
  "gsap_timeline v w = w\<lparr>timelines := timelines w @ [v]\<rparr>"

definition timeline_to ::
  "string \<Rightarrow> nat \<Rightarrow> target \<Rightarrow> vars \<Rightarrow> string option \<Rightarrow> world \<Rightarrow> world" where
  "timeline_to origin tline t v pos w =
     w\<lparr>tweens := tweens w @ [new_tween origin t v (Some tline) pos]\<rparr>"

text \<open>\<open>tween.kill()\<close>; killing a tween twice is harmless.\<close>

definition tween_kill :: "nat \<Rightarrow> world \<Rightarrow> world" where
  "tween_kill i w =
     (if i < length (tweens w)
      then w\<lparr>tweens := (tweens w)[i := (tweens w ! i)\<lparr>tw_killed := True\<rparr>]\<rparr>
      else w)"

text \<open>
  \<open>gsap.killTweensOf("*")\<close> asks the engine to kill the tweens of the elements that the
  selector \<open>*\<close> matches. Which tweens that kills is decided inside the engine, from the
  targets the selector resolves to and from the state each tween is in, and not by the
  script: \<open>found\<close> tells, by handle, the tweens that the call kills.
\<close>

definition gsap_killTweensOf_all :: "(nat \<Rightarrow> bool) \<Rightarrow> world \<Rightarrow> world" where
  "gsap_killTweensOf_all found w =
     w\<lparr>tweens := map (\<lambda>i. if found i then (tweens w ! i)\<lparr>tw_killed := True\<rparr> else tweens w ! i)
                     [0..<length (tweens w)]\<rparr>"

definition new_trigger :: "target \<Rightarrow> bool \<Rightarrow> string \<Rightarrow> bool \<Rightarrow> target \<Rightarrow> vars \<Rightarrow> trigger" where
  "new_trigger t b start once reveals v =
     \<lparr>tr_trigger = t, tr_batch = b, tr_start = start, tr_once = once,
      tr_reveals = reveals, tr_vars = v, tr_entered = [], tr_killed = False\<rparr>"

text \<open>
  \<open>ScrollTrigger.batch(selector, {onEnter, start, once})\<close>: the \<open>onEnter\<close> callbacks of
  this script all start one tween on the elements that entered, with the variables kept in
  \<open>tr_vars\<close>.
\<close>

definition ScrollTrigger_batch :: "string \<Rightarrow> string \<Rightarrow> bool \<Rightarrow> vars \<Rightarrow> world \<Rightarrow> world" where
  "ScrollTrigger_batch sel start once v w =
     w\<lparr>triggers := triggers w @ [new_trigger (Selector sel) True start once (Selector sel) v]\<rparr>"

definition ScrollTrigger_create ::
  "nat \<Rightarrow> string \<Rightarrow> bool \<Rightarrow> target \<Rightarrow> vars \<Rightarrow> world \<Rightarrow> world" where
  "ScrollTrigger_create el start once reveals v w =
     w\<lparr>triggers := triggers w @ [new_trigger (Element (Some el)) False start once reveals v]\<rparr>"

definition ScrollTrigger_killAll :: "world \<Rightarrow> world" where
  "ScrollTrigger_killAll w = w\<lparr>triggers := map (\<lambda>t. t\<lparr>tr_killed := True\<rparr>) (triggers w)\<rparr>"

definition ScrollTrigger_refresh :: "world \<Rightarrow> world" where
  "ScrollTrigger_refresh w = w\<lparr>st_refreshes := Suc (st_refreshes w)\<rparr>"

text \<open>
  \<open>this.gsap.f(...)\<close> throws a TypeError when \<open>this.gsap\<close> is null or undefined. Within one
  method no call changes \<open>this.gsap\<close>, so the model checks it where the method first
  dereferences it.
\<close>

definition this_gsap :: "world \<Rightarrow> (world \<Rightarrow> result) \<Rightarrow> result" where
  "this_gsap w f = (if ctl_gsap w then f w else Inl (TypeError ''this.gsap'', w))"

text \<open>\<open>forEach((element, index) => ...)\<close> over a list of elements, with a body that cannot throw.\<close>

fun forEach_index :: "(nat \<Rightarrow> nat \<Rightarrow> world \<Rightarrow> world) \<Rightarrow> nat \<Rightarrow> nat list \<Rightarrow> world \<Rightarrow> world" where
  "forEach_index f i [] w = w"
| "forEach_index f i (x # xs) w = forEach_index f (Suc i) xs (f x i w)"

section \<open>The loader: \<open>waitForGSAP\<close> and \<open>initCSS3Fallbacks\<close>\<close>

text \<open>
  What the page's other scripts have put on \<open>window\<close> when a check runs is the environment's
  choice: \<open>env k\<close> gives the globals that the \<open>k\<close>-th check sees (the value of \<open>attempts\<close>
  after its increment). \<open>setTimeout(checkGSAP, 100)\<close> becomes the recursive call, which
  accounts for the 100 milliseconds of the timer.
\<close>

record globals =
  g_gsap :: bool
  g_ScrollTrigger :: bool
  g_ScrollToPlugin :: bool

definition load_globals :: "globals \<Rightarrow> world \<Rightarrow> world" where
  "load_globals g w =
     w\<lparr>win_gsap := g_gsap g, win_ScrollTrigger := g_ScrollTrigger g,
       win_ScrollToPlugin := g_ScrollToPlugin g\<rparr>"

text \<open>
  The text of the fallback style sheet, line by line (the indentation of the template literal
  is left out).
\<close>

definition fallback_css :: "string list" where
  "fallback_css =
     [''.hero-title, .hero-subtitle, .section-title, .card, .text-large {'',
      ''animation: fadeInUp 1s ease-out forwards;'',
      ''}'',
      ''.hero-divider, .section-divider {'',
      ''animation: scaleIn 0.8s ease-out forwards;'',
      ''}'',
      ''@keyframes fadeInUp {'',
      ''from { opacity: 0; transform: translateY(30px); }'',
      ''to { opacity: 1; transform: translateY(0); }'',
      ''}'',
      ''@keyframes scaleIn {'',
      ''from { transform: scaleX(0); }'',
      ''to { transform: scaleX(1); }'',
      ''}'']"

definition initCSS3Fallbacks :: "world \<Rightarrow> world" where
  "initCSS3Fallbacks w =
     w\<lparr>head_children := head_children w @ [StyleElement fallback_css]\<rparr>"

text \<open>
  \<open>gsap.registerPlugin(p)\<close>: \<open>reg p\<close> is the exception it throws for plugin \<open>p\<close>, if any.
\<close>

definition registerPlugin :: "(string \<Rightarrow> exn option) \<Rightarrow> string \<Rightarrow> world \<Rightarrow> result" where
  "registerPlugin reg p w =
     (case reg p of
        Some e \<Rightarrow> Inl (e, w)
      | None \<Rightarrow> Inr (w\<lparr>plugins := plugins w @ [p]\<rparr>))"

text \<open>
  What a run of the loader reports besides the outcome: how often it invoked the callback,
  how many checks it made and how long its timers waited in total (in milliseconds). These
  counters belong to the loader, out of the callback's reach.
\<close>

record loaded =
  lo_callbacks :: nat
  lo_checks :: nat
  lo_waited :: nat
  lo_result :: result

definition maxAttempts :: nat where
  "maxAttempts = 50"

text \<open>
  The branch of \<open>checkGSAP\<close> taken once the engine is there:
  \<^verbatim>\<open>
  try {
    window.gsap.registerPlugin(window.ScrollTrigger);
    if (window.ScrollToPlugin) { window.gsap.registerPlugin(window.ScrollToPlugin); }
    callback();
  } catch (error) {
    console.warn('Plugin registration failed, continuing with basic GSAP:', error);
    callback();
  }
  \<close>
  The \<open>try\<close> block is left either by a registration that throws or by the callback itself;
  the handler is the same for both. An exception of the callback in the handler leaves
  \<open>checkGSAP\<close>.
\<close>

definition register_plugins :: "(string \<Rightarrow> exn option) \<Rightarrow> world \<Rightarrow> result" where
  "register_plugins reg w =
     and_then (registerPlugin reg ''ScrollTrigger'' w)
       (\<lambda>w1. if win_ScrollToPlugin w1 then registerPlugin reg ''ScrollToPlugin'' w1 else Inr w1)"

definition catch_handler :: "(world \<Rightarrow> result) \<Rightarrow> exn \<Rightarrow> world \<Rightarrow> result" where
  "catch_handler callback e w = callback (emit (ConsoleWarn (PluginRegistrationFailed e)) w)"

definition engine_found :: "(string \<Rightarrow> exn option) \<Rightarrow> (world \<Rightarrow> result) \<Rightarrow> world \<Rightarrow> loaded" where
  "engine_found reg callback w =
     (case register_plugins reg w of
        Inl (e, w1) \<Rightarrow>
          \<lparr>lo_callbacks = 1, lo_checks = 1, lo_waited = 0,
           lo_result = catch_handler callback e w1\<rparr>
      | Inr w1 \<Rightarrow>
          (case callback w1 of
             Inr w2 \<Rightarrow> \<lparr>lo_callbacks = 1, lo_checks = 1, lo_waited = 0, lo_result = Inr w2\<rparr>
           | Inl (e, w2) \<Rightarrow>
               \<lparr>lo_callbacks = 2, lo_checks = 1, lo_waited = 0,
                lo_result = catch_handler callback e w2\<rparr>))"

definition after_timeout :: "nat \<Rightarrow> loaded \<Rightarrow> loaded" where
  "after_timeout ms r = r\<lparr>lo_checks := Suc (lo_checks r), lo_waited := ms + lo_waited r\<rparr>"

function checkGSAP ::
  "(nat \<Rightarrow> globals) \<Rightarrow> (string \<Rightarrow> exn option) \<Rightarrow> (world \<Rightarrow> result) \<Rightarrow> nat \<Rightarrow> world \<Rightarrow> loaded"
where
  "checkGSAP env reg callback attempts w0 =
     (let attempts' = attempts + 1;
          w = load_globals (env attempts') w0
      in if win_gsap w \<and> win_ScrollTrigger w
         then engine_found reg callback (emit (ConsoleLog GsapLoaded) w)
         else if attempts' < maxAttempts
         then after_timeout 100 (checkGSAP env reg callback attempts' w)
         else \<lparr>lo_callbacks = 0, lo_checks = 1, lo_waited = 0,
               lo_result = Inr (initCSS3Fallbacks (emit (ConsoleWarn GsapFailedToLoad) w))\<rparr>)"
  by pat_completeness auto
termination
  by (relation "measure (\<lambda>(env, reg, callback, attempts, w0). maxAttempts - attempts)") auto

declare checkGSAP.simps [simp del]

definition waitForGSAP ::
  "(nat \<Rightarrow> globals) \<Rightarrow> (string \<Rightarrow> exn option) \<Rightarrow> (world \<Rightarrow> result) \<Rightarrow> world \<Rightarrow> loaded" where
  "waitForGSAP env reg callback w = checkGSAP env reg callback 0 w"

section \<open>The controller: set-up methods\<close>

text \<open>
  Every method of \<open>AnimationController\<close> records its entry in the trace, then does what the
  source does. \<open>tw_origin\<close> of a tween names the code that created it.
\<close>

definition prefersReducedMotion :: "world \<Rightarrow> bool" where
  "prefersReducedMotion w = (case win_matchMedia w of None \<Rightarrow> False | Some matches \<Rightarrow> matches)"

definition initSimpleAnimations :: "world \<Rightarrow> result" where
  "initSimpleAnimations w0 =
     (let w = emit (Enter ''initSimpleAnimations'') w0;
          elements = qsa w ''.hero-title, .hero-subtitle, .section-title, .card, .text-large''
      in this_gsap w (\<lambda>w.
           let w1 = gsap_set (Elements elements) [(''opacity'', Num 0), (''y'', Num 20)] w;
               w2 = gsap_to ''initSimpleAnimations'' (Elements elements)
                      [(''opacity'', Num 1), (''y'', Num 0), (''duration'', Num 0.8),
                       (''stagger'', Num 0.1), (''ease'', Str ''power2.out'')] w1
           in Inr w2))"

definition setInitialStates :: "world \<Rightarrow> result" where
  "setInitialStates w0 =
     (let w = emit (Enter ''setInitialStates'') w0
      in this_gsap w (\<lambda>w.
           let w1 = gsap_set
                      (SelectorList [''.hero-title'', ''.hero-subtitle'', ''.section-title'',
                                     ''.card'', ''.text-large''])
                      [(''opacity'', Num 0), (''y'', Num 60)] w;
               w2 = gsap_set (Selector ''.hero-divider, .section-divider'')
                      [(''scaleX'', Num 0)] w1
           in Inr w2))"

definition hero_float :: "nat \<Rightarrow> nat \<Rightarrow> world \<Rightarrow> world" where
  "hero_float element index w =
     (let w1 = gsap_set (Element (Some element)) [(''opacity'', Num 0.1)] w;
          w2 = gsap_to ''animateHero'' (Element (Some element))
                 [(''opacity'', Num 0.15), (''duration'', Num 2),
                  (''delay'', Computed (Plus (Lit 1) (Times (Lit (of_nat index)) (Lit 0.3))))] w1;
          w3 = gsap_to ''animateHero'' (Element (Some element))
                 [(''y'', Num (- 20)), (''duration'', Num 4), (''ease'', Str ''power1.inOut''),
                  (''yoyo'', Bool True), (''repeat'', Num (- 1))] w2
      in w3)"

definition animateHero :: "world \<Rightarrow> result" where
  "animateHero w0 =
     (let w = emit (Enter ''animateHero'') w0;
          heroTitle = querySelector w ''.hero-title'';
          heroSubtitle = querySelector w ''.hero-subtitle'';
          heroDivider = querySelector w ''.hero-divider'';
          heroButtons = qsa w ''.hero-content .btn''
      in if heroTitle = None then Inr w
         else this_gsap w (\<lambda>w.
           let tline = length (timelines w);
               w1 = gsap_timeline [(''delay'', Num 0.5)] w;
               w2 = timeline_to ''animateHero'' tline (Element heroTitle)
                      [(''opacity'', Num 1), (''y'', Num 0), (''duration'', Num 1.5),
                       (''ease'', Str ''back.out(1.7)'')] None w1;
               w3 = timeline_to ''animateHero'' tline (Element heroSubtitle)
                      [(''opacity'', Num 1), (''y'', Num 0), (''duration'', Num 1.2),
                       (''ease'', Str ''power2.out'')] (Some ''-=1'') w2;
               w4 = timeline_to ''animateHero'' tline (Element heroDivider)
                      [(''scaleX'', Num 1), (''duration'', Num 0.8),
                       (''ease'', Str ''power2.out'')] (Some ''-=0.6'') w3;
               w5 = timeline_to ''animateHero'' tline (Elements heroButtons)
                      [(''opacity'', Num 1), (''y'', Num 0), (''duration'', Num 0.8),
                       (''ease'', Str ''power2.out''), (''stagger'', Num 0.1)]
                      (Some ''-=0.4'') w4;
               floatingElements = qsa w5 ''.hero-floating-element''
           in Inr (forEach_index hero_float 0 floatingElements w5)))"

definition animateSections :: "world \<Rightarrow> result" where
  "animateSections w0 =
     (let w = emit (Enter ''animateSections'') w0
      in if \<not> ctl_ScrollTrigger w
         then this_gsap w (\<lambda>w.
                Inr (gsap_to ''animateSections'' (Selector ''.section-title, .text-large'')
                       [(''opacity'', Num 1), (''y'', Num 0), (''duration'', Num 1),
                        (''stagger'', Num 0.2), (''delay'', Num 1)] w))
         else
           let w1 = ScrollTrigger_batch ''.section-title'' ''top 85%'' True
                      [(''opacity'', Num 1), (''y'', Num 0), (''duration'', Num 1.2),
                       (''ease'', Str ''power2.out''), (''stagger'', Num 0.1)] w;
               w2 = ScrollTrigger_batch ''.text-large'' ''top 90%'' True
                      [(''opacity'', Num 1), (''y'', Num 0), (''duration'', Num 1),
                       (''ease'', Str ''power2.out''), (''stagger'', Num 0.1)] w1;
               w3 = ScrollTrigger_batch ''.section-divider'' ''top 85%'' True
                      [(''scaleX'', Num 1), (''duration'', Num 0.8),
                       (''ease'', Str ''power2.out'')] w2
           in case querySelector w3 ''.mission-content'' of
                None \<Rightarrow> Inr w3
              | Some missionContent \<Rightarrow>
                  Inr (ScrollTrigger_create missionContent ''top 80%'' True
                         (Element (Some missionContent))
                         [(''opacity'', Num 1), (''y'', Num 0), (''scale'', Num 1),
                          (''duration'', Num 1.5), (''ease'', Str ''back.out(1.7)'')] w3))"

text \<open>
  Each card gets a closure of its own: the variable \<open>hoverTween\<close>, shared by its
  \<open>mouseenter\<close> and \<open>mouseleave\<close> listeners.
\<close>

fun bind_card_hover :: "nat list \<Rightarrow> world \<Rightarrow> world" where
  "bind_card_hover [] w = w"
| "bind_card_hover (el # els) w =
     bind_card_hover els
       (w\<lparr>cardClosures := cardClosures w @ [\<lparr>cc_card = el, cc_hoverTween = None\<rparr>]\<rparr>)"

definition animateCards :: "world \<Rightarrow> result" where
  "animateCards w0 =
     (let w = emit (Enter ''animateCards'') w0;
          revealed =
            (if \<not> ctl_ScrollTrigger w
             then this_gsap w (\<lambda>w.
                    Inr (gsap_to ''animateCards'' (Selector ''.card'')
                           [(''opacity'', Num 1), (''y'', Num 0), (''duration'', Num 1),
                            (''stagger'', Num 0.2), (''delay'', Num 1.5)] w))
             else Inr (ScrollTrigger_batch ''.card'' ''top 85%'' True
                         [(''opacity'', Num 1), (''y'', Num 0), (''duration'', Num 1.2),
                          (''ease'', Str ''power2.out''), (''stagger'', Num 0.15)] w))
      in and_then revealed (\<lambda>w. Inr (bind_card_hover (qsa w ''.card'') w)))"

fun bind_btn_hover :: "nat list \<Rightarrow> world \<Rightarrow> world" where
  "bind_btn_hover [] w = w"
| "bind_btn_hover (btn # btns) w =
     bind_btn_hover btns
       (w\<lparr>btnClosures := btnClosures w @
            [\<lparr>bc_btn = btn, bc_icon = querySelector_in w btn ''.btn-icon'',
              bc_buttonTween = None, bc_iconTween = None\<rparr>]\<rparr>)"

definition animateButtons :: "world \<Rightarrow> result" where
  "animateButtons w0 =
     (let w = emit (Enter ''animateButtons'') w0
      in Inr (bind_btn_hover (qsa w ''.btn'') w))"

definition section_float :: "nat \<Rightarrow> nat \<Rightarrow> world \<Rightarrow> world" where
  "section_float element index w =
     (let w1 = gsap_set (Element (Some element)) [(''opacity'', Num 0.1)] w;
          w2 = gsap_to ''animateFloatingElements'' (Element (Some element))
                 [(''y'', Num (- 15)), (''x'', Num 5), (''duration'', Computed (Plus (Lit 4) (Lit (of_nat index)))),
                  (''ease'', Str ''power1.inOut''), (''yoyo'', Bool True),
                  (''repeat'', Num (- 1))] w1
      in w2)"

definition animateFloatingElements :: "world \<Rightarrow> result" where
  "animateFloatingElements w0 =
     (let w = emit (Enter ''animateFloatingElements'') w0;
          floatingElements = qsa w ''.section-floating-element''
      in if floatingElements = [] then Inr w
         else this_gsap w (\<lambda>w. Inr (forEach_index section_float 0 floatingElements w)))"

text \<open>
  \<open>initHeaderScrollEffect\<close>: the closure holds the header and the variable \<open>isScrolled\<close>;
  \<open>handleScroll i\<close> is the listener of the \<open>i\<close>-th such closure. The listener reads
  \<open>window.pageYOffset || document.documentElement.scrollTop\<close>: the second operand counts
  when the first is 0.
\<close>

definition scrollTop :: "world \<Rightarrow> rat" where
  "scrollTop w = (if pageYOffset w \<noteq> 0 then pageYOffset w else docScrollTop w)"

definition handleScroll :: "nat \<Rightarrow> world \<Rightarrow> world" where
  "handleScroll i w =
     (let c = scrollClosures w ! i;
          shouldBeScrolled = (scrollTop w > 50)
      in if shouldBeScrolled \<noteq> sc_isScrolled c
         then
           let w1 = w\<lparr>scrollClosures :=
                        (scrollClosures w)[i := c\<lparr>sc_isScrolled := shouldBeScrolled\<rparr>]\<rparr>
           in if shouldBeScrolled
              then classList_add (sc_header c) ''scrolled'' w1
              else classList_remove (sc_header c) ''scrolled'' w1
         else w)"

definition initHeaderScrollEffect :: "world \<Rightarrow> world" where
  "initHeaderScrollEffect w0 =
     (let w = emit (Enter ''initHeaderScrollEffect'') w0
      in case querySelector w ''.site-header'' of
           None \<Rightarrow> w
         | Some header \<Rightarrow>
             let i = length (scrollClosures w);
                 w1 = w\<lparr>scrollClosures := scrollClosures w @
                          [\<lparr>sc_header = header, sc_isScrolled = False\<rparr>]\<rparr>
             in handleScroll i w1)"

definition philosophy_item_trigger :: "nat \<Rightarrow> nat \<Rightarrow> world \<Rightarrow> world" where
  "philosophy_item_trigger item index w =
     ScrollTrigger_create item ''top 85%'' True (Element (Some item))
       [(''opacity'', Num 1), (''y'', Num 0), (''x'', Num 0), (''duration'', Num 1.2),
        (''ease'', Str ''back.out(1.7)''), (''delay'', Computed (Times (Lit (of_nat index)) (Lit 0.1)))] w"

definition animatePhilosophySection :: "world \<Rightarrow> result" where
  "animatePhilosophySection w0 =
     (let w = emit (Enter ''animatePhilosophySection'') w0
      in case querySelector w ''.philosophy-section'' of
           None \<Rightarrow> Inr w
         | Some philosophySection \<Rightarrow>
             let line = querySelector_in w philosophySection ''.philosophy-line'';
                 items = qsa_in w philosophySection ''.philosophy-item''
             in if line = None \<or> items = [] then Inr w
                else this_gsap w (\<lambda>w.
                  let w1 = gsap_set (Element line)
                             [(''opacity'', Num 0), (''scaleY'', Num 0),
                              (''transformOrigin'', Str ''top center'')] w;
                      w2 = gsap_set (Elements items)
                             [(''opacity'', Num 0), (''y'', Num 60),
                              (''x'', ByIndex (\<lambda>index. if index mod 2 = 0 then - 40 else 40))]
                             w1
                  in if \<not> ctl_ScrollTrigger w2
                     then
                       let w3 = gsap_to ''animatePhilosophySection'' (Element line)
                                  [(''opacity'', Num 1), (''scaleY'', Num 1),
                                   (''duration'', Num 1.5), (''ease'', Str ''power2.out''),
                                   (''delay'', Num 0.5)] w2;
                           w4 = gsap_to ''animatePhilosophySection'' (Elements items)
                                  [(''opacity'', Num 1), (''y'', Num 0), (''x'', Num 0),
                                   (''duration'', Num 1), (''stagger'', Num 0.3),
                                   (''ease'', Str ''power2.out''), (''delay'', Num 1)] w3
                       in Inr w4
                     else
                       let w3 = ScrollTrigger_create philosophySection ''top 80%'' True
                                  (Element line)
                                  [(''opacity'', Num 1), (''scaleY'', Num 1),
                                   (''duration'', Num 1.5), (''ease'', Str ''power2.out'')] w2
                       in Inr (forEach_index philosophy_item_trigger 0 items w3)))"

text \<open>
  \<open>initSmoothScrolling\<close> binds a click listener to every same-page anchor; the listener
  scrolls the page and touches nothing the controller keeps.
\<close>

definition anchor_selector :: string where
  "anchor_selector = ''a[href^='' @ [CHR 0x22] @ ''#'' @ [CHR 0x22] @ '']''"

definition initSmoothScrolling :: "world \<Rightarrow> world" where
  "initSmoothScrolling w0 =
     (let w = emit (Enter ''initSmoothScrolling'') w0
      in w\<lparr>anchorListeners := anchorListeners w @ qsa w anchor_selector\<rparr>)"

definition initFullAnimations :: "world \<Rightarrow> result" where
  "initFullAnimations w0 =
     (let w = emit (Enter ''initFullAnimations'') w0
      in and_then (setInitialStates w) (\<lambda>w.
         and_then (animateHero w) (\<lambda>w.
         and_then (animateSections w) (\<lambda>w.
         and_then (animateCards w) (\<lambda>w.
         and_then (animateButtons w) (\<lambda>w.
         and_then (animateFloatingElements w) (\<lambda>w.
         animatePhilosophySection (initHeaderScrollEffect w))))))))"

text \<open>
  \<open>init\<close>. The first dereference of \<open>this.gsap\<close> is \<open>this.gsap.config\<close>: with no engine on
  \<open>window\<close> it throws, after the two references have been stored and before the flag is set.
\<close>

definition init :: "world \<Rightarrow> result" where
  "init w0 =
     (let w = emit (Enter ''init'') w0
      in if isInitialized w then Inr w
         else
           let w1 = w\<lparr>ctl_gsap := win_gsap w, ctl_ScrollTrigger := win_ScrollTrigger w\<rparr>
           in this_gsap w1 (\<lambda>w.
                let w2 = gsap_config [(''force3D'', Bool True), (''nullTargetWarn'', Bool False)] w;
                    w3 = (if ctl_ScrollTrigger w2
                          then ScrollTrigger_config [(''ignoreMobileResize'', Bool True)] w2
                          else w2)
                in and_then (if prefersReducedMotion w3 then initSimpleAnimations w3
                             else initFullAnimations w3)
                     (\<lambda>w. Inr (emit (ConsoleLog AnimationsInitialized)
                                  (w\<lparr>isInitialized := True\<rparr>)))))"

definition refresh :: "world \<Rightarrow> world" where
  "refresh w0 =
     (let w = emit (Enter ''refresh'') w0
      in if ctl_ScrollTrigger w then ScrollTrigger_refresh w else w)"

text \<open>
  \<open>cardHoverTweens\<close> is a JavaScript \<open>Map\<close>: \<open>set\<close> replaces the value of a key in place or
  appends a new key, \<open>forEach\<close> visits the values in insertion order, \<open>clear\<close> empties it.
\<close>

fun map_set ::
  "nat \<Rightarrow> nat option \<Rightarrow> (nat \<times> nat option) list \<Rightarrow> (nat \<times> nat option) list" where
  "map_set k v [] = [(k, v)]"
| "map_set k v ((k', v') # m) = (if k' = k then (k, v) # m else (k', v') # map_set k v m)"

text \<open>\<open>if (tween) tween.kill()\<close>, for a variable or a map value that may be null.\<close>

definition kill_if_set :: "nat option \<Rightarrow> world \<Rightarrow> world" where
  "kill_if_set h w = (case h of None \<Rightarrow> w | Some t \<Rightarrow> tween_kill t w)"

fun kill_each :: "nat option list \<Rightarrow> world \<Rightarrow> world" where
  "kill_each [] w = w"
| "kill_each (h # hs) w = kill_each hs (kill_if_set h w)"

definition cleanup :: "(nat \<Rightarrow> bool) \<Rightarrow> world \<Rightarrow> world" where
  "cleanup found w0 =
     (let w = emit (Enter ''cleanup'') w0;
          w1 = kill_each (map snd (cardHoverTweens w)) w;
          w2 = w1\<lparr>cardHoverTweens := []\<rparr>;
          w3 = (if ctl_ScrollTrigger w2 then ScrollTrigger_killAll w2 else w2);
          w4 = (if ctl_gsap w3 then gsap_killTweensOf_all found w3 else w3)
      in w4)"

text \<open>The callback that \<open>initialize\<close> hands to the loader.\<close>

definition startup :: "world \<Rightarrow> result" where
  "startup w = and_then (init w) (\<lambda>w. Inr (initSmoothScrolling w))"

definition initialize :: "(nat \<Rightarrow> globals) \<Rightarrow> (string \<Rightarrow> exn option) \<Rightarrow> world \<Rightarrow> loaded" where
  "initialize env reg w = waitForGSAP env reg startup w"

section \<open>Listeners and events\<close>

text \<open>
  The two listeners of a card share the closure variable \<open>hoverTween\<close> and differ in the
  variables of the tween they start. Each is three statements:
  \<^verbatim>\<open>
  if (hoverTween) hoverTween.kill();
  hoverTween = this.gsap.to(card, {...});
  this.cardHoverTweens.set(card, hoverTween);
  \<close>
  \<open>i\<close> is the index of the closure.
\<close>

definition card_kill_existing :: "nat \<Rightarrow> world \<Rightarrow> world" where
  "card_kill_existing i w = kill_if_set (cc_hoverTween (cardClosures w ! i)) w"

definition card_new_tween :: "string \<Rightarrow> vars \<Rightarrow> nat \<Rightarrow> world \<Rightarrow> result" where
  "card_new_tween origin v i w0 =
     this_gsap w0 (\<lambda>w.
       let c = cardClosures w ! i;
           handle = length (tweens w);
           w1 = gsap_to origin (Element (Some (cc_card c))) v w
       in Inr (w1\<lparr>cardClosures := (cardClosures w1)[i := c\<lparr>cc_hoverTween := Some handle\<rparr>]\<rparr>))"

definition card_store :: "nat \<Rightarrow> world \<Rightarrow> world" where
  "card_store i w =
     (let c = cardClosures w ! i
      in w\<lparr>cardHoverTweens := map_set (cc_card c) (cc_hoverTween c) (cardHoverTweens w)\<rparr>)"

definition card_enter_vars :: vars where
  "card_enter_vars =
     [(''scale'', Num 1.02), (''y'', Num (- 3)), (''duration'', Num 0.2),
      (''ease'', Str ''power1.out''), (''overwrite'', Str ''auto'')]"

definition card_leave_vars :: vars where
  "card_leave_vars =
     [(''scale'', Num 1), (''y'', Num 0), (''duration'', Num 0.2),
      (''ease'', Str ''power1.out''), (''overwrite'', Str ''auto'')]"

definition card_mouseenter :: "nat \<Rightarrow> world \<Rightarrow> result" where
  "card_mouseenter i w =
     and_then (card_new_tween ''card.mouseenter'' card_enter_vars i (card_kill_existing i w))
       (\<lambda>w. Inr (card_store i w))"

definition card_mouseleave :: "nat \<Rightarrow> world \<Rightarrow> result" where
  "card_mouseleave i w =
     and_then (card_new_tween ''card.mouseleave'' card_leave_vars i (card_kill_existing i w))
       (\<lambda>w. Inr (card_store i w))"

text \<open>
  The listeners of a button, with the closure variables \<open>icon\<close>, \<open>buttonTween\<close> and
  \<open>iconTween\<close>:
  \<^verbatim>\<open>
  if (buttonTween) buttonTween.kill();
  if (iconTween) iconTween.kill();
  buttonTween = this.gsap.to(btn, {scale: ..., ...});
  if (icon) { iconTween = this.gsap.to(icon, {x: ..., ...}); }
  \<close>
  \<open>scale\<close> and \<open>x\<close> are the values the button and its icon are sent to.
\<close>

definition btn_kill_button :: "nat \<Rightarrow> world \<Rightarrow> world" where
  "btn_kill_button i w = kill_if_set (bc_buttonTween (btnClosures w ! i)) w"

definition btn_kill_icon :: "nat \<Rightarrow> world \<Rightarrow> world" where
  "btn_kill_icon i w = kill_if_set (bc_iconTween (btnClosures w ! i)) w"

definition btn_button_tween :: "string \<Rightarrow> rat \<Rightarrow> nat \<Rightarrow> world \<Rightarrow> result" where
  "btn_button_tween origin scale i w0 =
     this_gsap w0 (\<lambda>w.
       let c = btnClosures w ! i;
           handle = length (tweens w);
           w1 = gsap_to origin (Element (Some (bc_btn c)))
                  [(''scale'', Num scale), (''duration'', Num 0.2),
                   (''ease'', Str ''power1.out''), (''overwrite'', Str ''auto'')] w
       in Inr (w1\<lparr>btnClosures := (btnClosures w1)[i := c\<lparr>bc_buttonTween := Some handle\<rparr>]\<rparr>))"

definition btn_icon_tween :: "string \<Rightarrow> rat \<Rightarrow> nat \<Rightarrow> world \<Rightarrow> result" where
  "btn_icon_tween origin x i w0 =
     (let c = btnClosures w0 ! i
      in case bc_icon c of
           None \<Rightarrow> Inr w0
         | Some icon \<Rightarrow>
             this_gsap w0 (\<lambda>w.
               let handle = length (tweens w);
                   w1 = gsap_to origin (Element (Some icon))
                          [(''x'', Num x), (''duration'', Num 0.2),
                           (''ease'', Str ''power1.out''), (''overwrite'', Str ''auto'')] w
               in Inr (w1\<lparr>btnClosures :=
                            (btnClosures w1)[i := c\<lparr>bc_iconTween := Some handle\<rparr>]\<rparr>)))"

definition btn_hover :: "string \<Rightarrow> rat \<Rightarrow> rat \<Rightarrow> nat \<Rightarrow> world \<Rightarrow> result" where
  "btn_hover origin scale x i w =
     and_then (btn_button_tween origin scale i (btn_kill_icon i (btn_kill_button i w)))
       (btn_icon_tween origin x i)"

definition btn_mouseenter :: "nat \<Rightarrow> world \<Rightarrow> result" where
  "btn_mouseenter i w = btn_hover ''btn.mouseenter'' 1.05 5 i w"

definition btn_mouseleave :: "nat \<Rightarrow> world \<Rightarrow> result" where
  "btn_mouseleave i w = btn_hover ''btn.mouseleave'' 1 0 i w"

text \<open>
  Dispatch of a mouse event on element \<open>el\<close>: the listeners bound to \<open>el\<close> run in the order
  of their registration (the cards' before the buttons', as \<open>initFullAnimations\<close> binds
  them). An exception that leaves a listener is reported by the browser and the next
  listener runs.
\<close>

datatype mouse_event = MouseEnter nat | MouseLeave nat

definition card_listeners :: "nat \<Rightarrow> world \<Rightarrow> nat list" where
  "card_listeners el w =
     filter (\<lambda>i. cc_card (cardClosures w ! i) = el) [0..<length (cardClosures w)]"

definition btn_listeners :: "nat \<Rightarrow> world \<Rightarrow> nat list" where
  "btn_listeners el w =
     filter (\<lambda>i. bc_btn (btnClosures w ! i) = el) [0..<length (btnClosures w)]"

fun run_listeners :: "(nat \<Rightarrow> world \<Rightarrow> result) \<Rightarrow> nat list \<Rightarrow> world \<Rightarrow> world" where
  "run_listeners f [] w = w"
| "run_listeners f (i # is) w = run_listeners f is (world_of (f i w))"

fun mouse :: "mouse_event \<Rightarrow> world \<Rightarrow> world" where
  "mouse (MouseEnter el) w =
     run_listeners btn_mouseenter (btn_listeners el w)
       (run_listeners card_mouseenter (card_listeners el w) w)"
| "mouse (MouseLeave el) w =
     run_listeners btn_mouseleave (btn_listeners el w)
       (run_listeners card_mouseleave (card_listeners el w) w)"

text \<open>
  A scroll event: the browser has moved the page to the offsets \<open>y\<close> (\<open>window.pageYOffset\<close>)
  and \<open>d\<close> (\<open>document.documentElement.scrollTop\<close>), then every bound scroll listener runs.
\<close>

fun run_scroll_listeners :: "nat list \<Rightarrow> world \<Rightarrow> world" where
  "run_scroll_listeners [] w = w"
| "run_scroll_listeners (i # is) w = run_scroll_listeners is (handleScroll i w)"

definition scroll :: "rat \<times> rat \<Rightarrow> world \<Rightarrow> world" where
  "scroll yd w0 =
     (let w = w0\<lparr>pageYOffset := fst yd, docScrollTop := snd yd\<rparr>
      in run_scroll_listeners [0..<length (scrollClosures w)] w)"

fun scrolls :: "(rat \<times> rat) list \<Rightarrow> world \<Rightarrow> world" where
  "scrolls [] w = w"
| "scrolls (yd # yds) w = scrolls yds (scroll yd w)"

subsection \<open>The instants of a run of mouse events\<close>

text \<open>
  To speak about every instant, and not only about the world between two events, the
  listeners are also given as the list of worlds they pass through, one after each
  statement.
\<close>

definition card_hover_instants :: "string \<Rightarrow> vars \<Rightarrow> nat \<Rightarrow> world \<Rightarrow> world list" where
  "card_hover_instants origin v i w =
     (let w1 = card_kill_existing i w
      in case card_new_tween origin v i w1 of
           Inl (e, w2) \<Rightarrow> [w1, w2]
         | Inr w2 \<Rightarrow> [w1, w2, card_store i w2])"

definition btn_hover_instants :: "string \<Rightarrow> rat \<Rightarrow> rat \<Rightarrow> nat \<Rightarrow> world \<Rightarrow> world list" where
  "btn_hover_instants origin scale x i w =
     (let w1 = btn_kill_button i w;
          w2 = btn_kill_icon i w1
      in case btn_button_tween origin scale i w2 of
           Inl (e, w3) \<Rightarrow> [w1, w2, w3]
         | Inr w3 \<Rightarrow> [w1, w2, w3, world_of (btn_icon_tween origin x i w3)])"

fun listeners_instants :: "(nat \<Rightarrow> world \<Rightarrow> world list) \<Rightarrow> nat list \<Rightarrow> world \<Rightarrow> world list" where
  "listeners_instants f [] w = [w]"
| "listeners_instants f (i # is) w = w # f i w @ listeners_instants f is (last (w # f i w))"

fun mouse_instants :: "mouse_event \<Rightarrow> world \<Rightarrow> world list" where
  "mouse_instants (MouseEnter el) w =
     (let ws = listeners_instants (card_hover_instants ''card.mouseenter'' card_enter_vars)
                 (card_listeners el w) w
      in ws @ listeners_instants (btn_hover_instants ''btn.mouseenter'' 1.05 5)
                (btn_listeners el w) (last ws))"
| "mouse_instants (MouseLeave el) w =
     (let ws = listeners_instants (card_hover_instants ''card.mouseleave'' card_leave_vars)
                 (card_listeners el w) w
      in ws @ listeners_instants (btn_hover_instants ''btn.mouseleave'' 1 0)
                (btn_listeners el w) (last ws))"

fun instants :: "mouse_event list \<Rightarrow> world \<Rightarrow> world list" where
  "instants [] w = [w]"
| "instants (ev # evs) w = mouse_instants ev w @ instants evs (mouse ev w)"

text \<open>
  The hover tweens of the card bindings that are active on element \<open>el\<close>: created by one of
  the two card listeners, aimed at \<open>el\<close>, and not killed.
\<close>

definition card_hover_origin :: "string \<Rightarrow> bool" where
  "card_hover_origin origin = (origin = ''card.mouseenter'' \<or> origin = ''card.mouseleave'')"

definition active_hover :: "nat \<Rightarrow> tween \<Rightarrow> bool" where
  "active_hover el t =
     (card_hover_origin (tw_origin t) \<and> tw_target t = Element (Some el) \<and> \<not> tw_killed t)"

definition active_hover_tweens :: "nat \<Rightarrow> world \<Rightarrow> nat list" where
  "active_hover_tweens el w =
     filter (\<lambda>j. active_hover el (tweens w ! j)) [0..<length (tweens w)]"

section \<open>The resize listener and its timer\<close>

text \<open>
  \<^verbatim>\<open>
  let resizeTimeout;
  window.addEventListener('resize', () => {
    clearTimeout(resizeTimeout);
    resizeTimeout = setTimeout(() => { AnimationController.refresh(); }, 250);
  });
  \<close>
  Time is a logical clock in milliseconds. \<open>timers\<close> holds the pending timeouts of this
  listener as pairs of identifier and due time; a timeout fires when the clock reaches its
  due time, unless it has been cleared. \<open>refreshed_at\<close> records when the timer's callback
  called \<open>AnimationController.refresh\<close>.
\<close>

record sched =
  now :: nat
  timers :: "(nat \<times> nat) list"
  next_id :: nat
  resizeTimeout :: "nat option"
  refreshed_at :: "nat list"
  page :: world

definition clearTimeout :: "nat option \<Rightarrow> sched \<Rightarrow> sched" where
  "clearTimeout h s =
     (case h of
        None \<Rightarrow> s
      | Some k \<Rightarrow> s\<lparr>timers := filter (\<lambda>tm. fst tm \<noteq> k) (timers s)\<rparr>)"

definition setTimeout :: "nat \<Rightarrow> sched \<Rightarrow> nat \<times> sched" where
  "setTimeout delay s =
     (next_id s,
      s\<lparr>timers := timers s @ [(next_id s, now s + delay)], next_id := Suc (next_id s)\<rparr>)"

definition on_resize :: "sched \<Rightarrow> sched" where
  "on_resize s =
     (let s1 = clearTimeout (resizeTimeout s) s;
          (k, s2) = setTimeout 250 s1
      in s2\<lparr>resizeTimeout := Some k\<rparr>)"

definition fire :: "nat \<times> nat \<Rightarrow> sched \<Rightarrow> sched" where
  "fire tm s =
     s\<lparr>now := snd tm,
       timers := filter (\<lambda>x. fst x \<noteq> fst tm) (timers s),
       refreshed_at := refreshed_at s @ [snd tm],
       page := refresh (page s)\<rparr>"

text \<open>The clock moves to \<open>t\<close>: the timeouts due by then fire, the earliest first.\<close>

definition advance_to :: "nat \<Rightarrow> sched \<Rightarrow> sched" where
  "advance_to t s =
     (let due = filter (\<lambda>tm. snd tm \<le> t) (timers s);
          s1 = fold fire (sort_key snd due) s
      in s1\<lparr>now := t\<rparr>)"

text \<open>A resize event \<open>gap\<close> milliseconds after the previous instant of the run.\<close>

definition resize_after :: "nat \<Rightarrow> sched \<Rightarrow> sched" where
  "resize_after gap s = on_resize (advance_to (now s + gap) s)"

fun resizes :: "nat list \<Rightarrow> sched \<Rightarrow> sched" where
  "resizes [] s = s"
| "resizes (gap # gaps) s = resizes gaps (resize_after gap s)"

text \<open>No further event: every pending timeout fires at its due time.\<close>

definition settle :: "sched \<Rightarrow> sched" where
  "settle s = fold fire (sort_key snd (timers s)) s"

section \<open>The world at script start, and a sample page\<close>

text \<open>
  The controller object as its literal creates it (\<open>gsap: null\<close>, \<open>ScrollTrigger: null\<close>,
  \<open>isInitialized: false\<close>, \<open>cardHoverTweens: new Map()\<close>), an engine that holds nothing yet,
  no listener bound, and the document and window that the page provides.
\<close>

definition initial_world ::
  "(string \<Rightarrow> nat list) \<Rightarrow> (nat \<Rightarrow> string \<Rightarrow> nat list) \<Rightarrow> (nat \<Rightarrow> string list) \<Rightarrow> bool option
     \<Rightarrow> world" where
  "initial_world q qi cls mm =
     \<lparr>win_gsap = False, win_ScrollTrigger = False, win_ScrollToPlugin = False,
      win_matchMedia = mm, pageYOffset = 0, docScrollTop = 0,
      qsa = q, qsa_in = qi, classes = cls, head_children = [],
      ctl_gsap = False, ctl_ScrollTrigger = False, isInitialized = False,
      cardHoverTweens = [], plugins = [], gsap_configs = [], st_configs = [],
      gsap_sets = [], timelines = [], tweens = [], triggers = [], st_refreshes = 0,
      cardClosures = [], btnClosures = [], scrollClosures = [], anchorListeners = [],
      trace = []\<rparr>"

text \<open>
  A small page: header 0, cards 1 and 2, a button 3 with icon 4, a hero title 5, a
  philosophy section 6 with line 7 and items 8 and 9, and a section divider 10.
\<close>

definition demo_qsa :: "string \<Rightarrow> nat list" where
  "demo_qsa s =
     (if s = ''.site-header'' then [0]
      else if s = ''.card'' then [1, 2]
      else if s = ''.btn'' then [3]
      else if s = ''.hero-title'' then [5]
      else if s = ''.philosophy-section'' then [6]
      else if s = ''.section-divider'' then [10]
      else if s = ''.hero-divider, .section-divider'' then [10]
      else [])"

definition demo_qsa_in :: "nat \<Rightarrow> string \<Rightarrow> nat list" where
  "demo_qsa_in el s =
     (if el = 3 \<and> s = ''.btn-icon'' then [4]
      else if el = 6 \<and> s = ''.philosophy-line'' then [7]
      else if el = 6 \<and> s = ''.philosophy-item'' then [8, 9]
      else [])"

definition demo_world :: world where
  "demo_world = initial_world demo_qsa demo_qsa_in (\<lambda>el. []) (Some False)"

definition no_engine :: globals where
  "no_engine = \<lparr>g_gsap = False, g_ScrollTrigger = False, g_ScrollToPlugin = False\<rparr>"

definition full_engine :: globals where
  "full_engine = \<lparr>g_gsap = True, g_ScrollTrigger = True, g_ScrollToPlugin = True\<rparr>"

definition engine_seen :: "globals \<Rightarrow> bool" where
  "engine_seen g = (g_gsap g \<and> g_ScrollTrigger g)"

text \<open>
  Sample environments of the loader: a registration that throws for the ScrollTrigger
  plugin, and a callback that throws unless the handler's warning has been logged, that is
  on its first invocation only.
\<close>

definition failing_registration :: "string \<Rightarrow> exn option" where
  "failing_registration p = (if p = ''ScrollTrigger'' then Some (Thrown ''register'') else None)"

definition flaky_callback :: "world \<Rightarrow> result" where
  "flaky_callback w =
     (if ConsoleWarn (PluginRegistrationFailed (Thrown ''first call'')) \<in> set (trace w)
      then Inr w else Inl (Thrown ''first call'', w))"

section \<open>Vocabulary of the controller's properties\<close>

text \<open>With the engine stored, a set-up method returns, and it leaves the references alone.\<close>

definition settled :: "(world \<Rightarrow> result) \<Rightarrow> bool" where
  "settled f = (\<forall>w. ctl_gsap w \<longrightarrow> (\<exists>w'. f w = Inr w' \<and> ctl_gsap w' \<and>
      ctl_ScrollTrigger w' = ctl_ScrollTrigger w))"

text \<open>
  The methods of the full choreography, the tween of the abbreviated batch, and the trace
  entries that a call has added.
\<close>

definition full_choreography :: "string list" where
  "full_choreography =
     [''initFullAnimations'', ''setInitialStates'', ''animateHero'', ''animateSections'',
      ''animateCards'', ''animateButtons'', ''animateFloatingElements'',
      ''initHeaderScrollEffect'', ''animatePhilosophySection'']"

definition simple_batch :: "nat list \<Rightarrow> tween" where
  "simple_batch elements =
     new_tween ''initSimpleAnimations'' (Elements elements)
       [(''opacity'', Num 1), (''y'', Num 0), (''duration'', Num 0.8),
        (''stagger'', Num 0.1), (''ease'', Str ''power2.out'')] None None"

definition entries_since :: "world \<Rightarrow> world \<Rightarrow> entry list" where
  "entries_since w w' = drop (length (trace w)) (trace w')"





text \<open>
  Sample worlds: the sample page once the engine and its plugins are on \<open>window\<close>; the same
  with the reduced-motion query matching; and a controller that holds the engine but no
  ScrollTrigger.
\<close>

definition engine_ready_world :: world where
  "engine_ready_world = load_globals full_engine demo_world"

definition reduced_motion_world :: world where
  "reduced_motion_world = engine_ready_world\<lparr>win_matchMedia := Some True\<rparr>"

definition gsap_only_world :: world where
  "gsap_only_world = demo_world\<lparr>ctl_gsap := True\<rparr>"

text \<open>The sample page with a header that carries the class \<open>scrolled\<close> in its markup.\<close>

definition scrolled_header_world :: world where
  "scrolled_header_world =
     initial_world demo_qsa demo_qsa_in
       (\<lambda>el. if el = 0 then [''site-header'', ''scrolled''] else []) (Some False)"

text \<open>
  What holds of the header closure between two scroll events: the one closure's flag says on
  which side of the threshold the offset is (\<open>flag_inv\<close>), and so does the presence of
  the class if the header did not carry it at the start (\<open>scroll_inv\<close>). \<open>crossing\<close> is
  the class-list mutation that a change of side calls for.
\<close>

definition flag_inv :: "nat \<Rightarrow> world \<Rightarrow> bool" where
  "flag_inv header w =
     (scrollClosures w = [\<lparr>sc_header = header, sc_isScrolled = (scrollTop w > 50)\<rparr>])"

definition crossing :: "nat \<Rightarrow> bool \<Rightarrow> bool \<Rightarrow> entry list" where
  "crossing header before after =
     (if after \<and> \<not> before then [ClassAdd header ''scrolled'']
      else if before \<and> \<not> after then [ClassRemove header ''scrolled'']
      else [])"

definition scroll_inv :: "nat \<Rightarrow> world \<Rightarrow> bool" where
  "scroll_inv header w =
     (scrollClosures w = [\<lparr>sc_header = header, sc_isScrolled = (scrollTop w > 50)\<rparr>] \<and>
      (''scrolled'' \<in> set (classes w header)) = (scrollTop w > 50))"

text \<open>
  The invariant of the card bindings: no card is bound twice, and every live hover tween is
  the one that the closure of its card holds in \<open>hoverTween\<close>.
\<close>

definition hover_inv :: "world \<Rightarrow> bool" where
  "hover_inv w =
     (distinct (map cc_card (cardClosures w)) \<and>
      (\<forall>j < length (tweens w).
         card_hover_origin (tw_origin (tweens w ! j)) \<and> \<not> tw_killed (tweens w ! j) \<longrightarrow>
         (\<exists>i < length (cardClosures w).
            cc_hoverTween (cardClosures w ! i) = Some j \<and>
            tw_target (tweens w ! j) = Element (Some (cc_card (cardClosures w ! i))))))"

text \<open>The closure \<open>i\<close> holds no live tween: the state between the kill and the new tween.\<close>

definition slot_free :: "nat \<Rightarrow> world \<Rightarrow> bool" where
  "slot_free i w =
     (\<forall>t. cc_hoverTween (cardClosures w ! i) = Some t \<and> t < length (tweens w) \<longrightarrow>
          tw_killed (tweens w ! t))"

text \<open>A world on which the listeners can run: the invariant, and the number of closures.\<close>

definition hover_ok :: "nat \<Rightarrow> nat \<Rightarrow> world \<Rightarrow> bool" where
  "hover_ok n m w = (hover_inv w \<and> length (cardClosures w) = n \<and> length (btnClosures w) = m)"

text \<open>The sample page with the engine and ScrollTrigger stored in the controller.\<close>

definition hover_demo_world :: world where
  "hover_demo_world = demo_world\<lparr>ctl_gsap := True, ctl_ScrollTrigger := True\<rparr>"

section \<open>The running script\<close>

text \<open>
  A scroll trigger fires. For a trigger made by \<open>ScrollTrigger.create\<close> the plugin calls
  \<open>onEnter()\<close>, which starts the reveal tween on the element kept in \<open>tr_reveals\<close>; with
  \<open>once: true\<close> the plugin then kills the trigger. For a batch the plugin calls
  \<open>onEnter(elements)\<close> with the elements of the batch that entered the viewport, and the
  callback starts one tween on these elements; with \<open>once: true\<close> an element enters once,
  so the elements passed are among those that have not entered before (\<open>tr_entered\<close>).
  Which elements entered is the environment's choice, a parameter of the step.
\<close>

definition entering :: "world \<Rightarrow> trigger \<Rightarrow> nat list \<Rightarrow> nat list" where
  "entering w t els =
     filter (\<lambda>e. e \<in> set (elements_of w (tr_trigger t)) \<and>
                 \<not> (tr_once t \<and> e \<in> set (tr_entered t)))
       (remdups els)"

definition trigger_enter :: "nat \<Rightarrow> nat list \<Rightarrow> world \<Rightarrow> result" where
  "trigger_enter k els w0 =
     (if k < length (triggers w0) \<and> \<not> tr_killed (triggers w0 ! k)
      then let t = triggers w0 ! k
           in if tr_batch t
              then (let fresh = entering w0 t els;
                        w = w0\<lparr>triggers :=
                                 (triggers w0)[k := t\<lparr>tr_entered := tr_entered t @ fresh\<rparr>]\<rparr>
                    in if fresh = [] then Inr w0
                       else this_gsap w (\<lambda>w.
                              Inr (gsap_to ''onEnter'' (Elements fresh) (tr_vars t) w)))
              else and_then
                     (this_gsap w0 (\<lambda>w.
                        Inr (gsap_to ''onEnter'' (tr_reveals t) (tr_vars t) w)))
                     (\<lambda>w. Inr (if tr_once t
                                then w\<lparr>triggers := (triggers w)[k := t\<lparr>tr_killed := True\<rparr>]\<rparr>
                                else w))
      else Inr w0)"

text \<open>
  What can happen to the running script: the page loads it (\<open>initialize\<close> with the
  environment's globals and plugin registration), the mouse enters or leaves an element,
  the page scrolls, a scroll trigger fires, a timer calls \<open>refresh\<close> (after a resize or a
  page navigation), or the page unloads (\<open>cleanup\<close>). The reachable worlds are those that a
  sequence of such actions produces from the world at script start, for any page.
\<close>

datatype action =
    Load "nat \<Rightarrow> globals" "string \<Rightarrow> exn option"
  | Mouse mouse_event
  | Scroll "rat \<times> rat"
  | TriggerEnter nat "nat list"
  | Refresh
  | Unload "nat \<Rightarrow> bool"

fun act :: "action \<Rightarrow> world \<Rightarrow> world" where
  "act (Load env reg) w = world_of (lo_result (initialize env reg w))"
| "act (Mouse ev) w = mouse ev w"
| "act (Scroll yd) w = scroll yd w"
| "act (TriggerEnter k els) w = world_of (trigger_enter k els w)"
| "act Refresh w = refresh w"
| "act (Unload found) w = cleanup found w"

inductive reachable :: "world \<Rightarrow> bool" where
  start: "reachable (initial_world q qi cls mm)"
| step: "reachable w \<Longrightarrow> reachable (act a w)"

text \<open>
  The engine holds tweens only if the controller holds the engine, and triggers only if the
  controller holds ScrollTrigger; \<open>keeps_engine\<close> relates two worlds of a step that keeps
  this so.
\<close>

definition engine_inv :: "world \<Rightarrow> bool" where
  "engine_inv w =
     ((tweens w = [] \<or> ctl_gsap w) \<and> (triggers w = [] \<or> ctl_ScrollTrigger w))"

definition keeps_engine :: "world \<Rightarrow> world \<Rightarrow> bool" where
  "keeps_engine w w' =
     (ctl_gsap w' = ctl_gsap w \<and> ctl_ScrollTrigger w' = ctl_ScrollTrigger w \<and>
      length (triggers w') = length (triggers w) \<and>
      (length (tweens w') = length (tweens w) \<or> ctl_gsap w))"




text \<open>
  The sample page after loading with the engine present, once both cards have scrolled
  into view: the batch on \<open>.card\<close> (trigger 3) has started their reveal (tween 4). And
  the page whose header carries the class \<open>scrolled\<close> from the start, after loading with the
  engine present and two scroll events, to the offsets 10 and 20.
\<close>

definition scrolled_header_run :: world where
  "scrolled_header_run =
     act (Scroll (20, 20)) (act (Scroll (10, 10))
       (act (Load (\<lambda>k. full_engine) (\<lambda>p. None)) scrolled_header_world))"


text \<open>
  During a burst of resize events exactly one timeout is pending: the one the last event
  set, due 250 ms after it.
\<close>

definition pending_one :: "nat \<Rightarrow> sched \<Rightarrow> bool" where
  "pending_one k s =
     (timers s = [(k, now s + 250)] \<and> resizeTimeout s = Some k \<and> next_id s = Suc k)"

text \<open>A scheduler at rest on the sample page.\<close>

definition quiet_sched :: sched where
  "quiet_sched =
     \<lparr>now = 0, timers = [], next_id = 1, resizeTimeout = None, refreshed_at = [],
      page = demo_world\<rparr>"

text \<open>
  The elements that the full choreography reveals through a scroll trigger when the plugin
  is there (\<open>scroll_revealed\<close>), the targets of the tweens that the choreography starts by
  itself when the plugin is not there (\<open>revealed_at_once\<close>), and the statement that every
  one of the former is among the latter.
\<close>

definition scroll_revealed :: "world \<Rightarrow> nat list" where
  "scroll_revealed w =
     concat (map (\<lambda>t. elements_of w (tr_reveals t))
       (drop (length (triggers w))
          (triggers (world_of (initFullAnimations (w\<lparr>ctl_ScrollTrigger := True\<rparr>))))))"

definition revealed_at_once :: "world \<Rightarrow> nat list" where
  "revealed_at_once w =
     concat (map (\<lambda>t. elements_of w (tw_target t))
       (drop (length (tweens w))
          (tweens (world_of (initFullAnimations (w\<lparr>ctl_ScrollTrigger := False\<rparr>))))))"

definition every_scroll_reveal_replaced :: "world \<Rightarrow> bool" where
  "every_scroll_reveal_replaced w = (set (scroll_revealed w) \<subseteq> set (revealed_at_once w))"


section \<open>The loader: properties\<close>

lemma load_globals_twice: "load_globals g2 (load_globals g1 w) = load_globals g2 w"
  by (simp add: load_globals_def)

lemma checkGSAP_found:
  "engine_seen (env (Suc attempts)) \<Longrightarrow>
   checkGSAP env reg callback attempts w0 =
     engine_found reg callback
       (emit (ConsoleLog GsapLoaded) (load_globals (env (Suc attempts)) w0))"
  by (subst checkGSAP.simps) (auto simp add: Let_def load_globals_def engine_seen_def)

lemma checkGSAP_retry:
  "\<not> engine_seen (env (Suc attempts)) \<Longrightarrow> Suc attempts < maxAttempts \<Longrightarrow>
   checkGSAP env reg callback attempts w0 =
     after_timeout 100
       (checkGSAP env reg callback (Suc attempts) (load_globals (env (Suc attempts)) w0))"
  by (subst checkGSAP.simps) (auto simp add: Let_def load_globals_def engine_seen_def)

lemma checkGSAP_give_up:
  "\<not> engine_seen (env (Suc attempts)) \<Longrightarrow> \<not> Suc attempts < maxAttempts \<Longrightarrow>
   checkGSAP env reg callback attempts w0 =
     \<lparr>lo_callbacks = 0, lo_checks = 1, lo_waited = 0,
      lo_result = Inr (initCSS3Fallbacks (emit (ConsoleWarn GsapFailedToLoad)
                         (load_globals (env (Suc attempts)) w0)))\<rparr>"
  by (subst checkGSAP.simps) (auto simp add: Let_def load_globals_def engine_seen_def)

lemma checkGSAP_exhausts:
  "attempts + n + 1 = maxAttempts \<Longrightarrow>
   \<forall>k. attempts < k \<and> k \<le> maxAttempts \<longrightarrow> \<not> engine_seen (env k) \<Longrightarrow>
   checkGSAP env reg callback attempts w0 =
     \<lparr>lo_callbacks = 0, lo_checks = Suc n, lo_waited = 100 * n,
      lo_result = Inr (initCSS3Fallbacks (emit (ConsoleWarn GsapFailedToLoad)
                         (load_globals (env maxAttempts) w0)))\<rparr>"
proof (induction n arbitrary: attempts w0)
  case 0
  then have "\<not> engine_seen (env (Suc attempts))" and "\<not> Suc attempts < maxAttempts"
    and "Suc attempts = maxAttempts" by auto
  then show ?case using checkGSAP_give_up[of env attempts reg callback w0] by simp
next
  case (Suc n)
  then have ns: "\<not> engine_seen (env (Suc attempts))" and lt: "Suc attempts < maxAttempts"
    by auto
  have "checkGSAP env reg callback (Suc attempts) (load_globals (env (Suc attempts)) w0) =
     \<lparr>lo_callbacks = 0, lo_checks = Suc n, lo_waited = 100 * n,
      lo_result = Inr (initCSS3Fallbacks (emit (ConsoleWarn GsapFailedToLoad)
                         (load_globals (env maxAttempts)
                            (load_globals (env (Suc attempts)) w0))))\<rparr>"
    using Suc.prems by (intro Suc.IH) auto
  then show ?case
    using checkGSAP_retry[of env attempts reg callback w0] ns lt
    by (simp add: after_timeout_def load_globals_twice)
qed

text \<open>
  C1. If none of the 50 checks finds both \<open>window.gsap\<close> and \<open>window.ScrollTrigger\<close>,
  the loader makes exactly 50 checks, 100 ms apart (49 timers, 4900 ms), then appends exactly
  one \<open>style\<close> element, the fallback sheet, to the head of the document and logs the
  warning; it never invokes the callback, whatever the callback and the plugin registration
  would do.
\<close>

theorem fallback_after_polling_budget:
  assumes "\<forall>k. 1 \<le> k \<and> k \<le> 50 \<longrightarrow> \<not> (g_gsap (env k) \<and> g_ScrollTrigger (env k))"
  shows "\<exists>w'. waitForGSAP env reg callback w =
            \<lparr>lo_callbacks = 0, lo_checks = 50, lo_waited = 4900, lo_result = Inr w'\<rparr> \<and>
          head_children w' = head_children w @ [StyleElement fallback_css] \<and>
          trace w' = trace w @ [ConsoleWarn GsapFailedToLoad]"
proof -
  have "\<forall>k. 0 < k \<and> k \<le> maxAttempts \<longrightarrow> \<not> engine_seen (env k)"
    using assms by (simp add: maxAttempts_def engine_seen_def)
  then have "checkGSAP env reg callback 0 w =
     \<lparr>lo_callbacks = 0, lo_checks = Suc 49, lo_waited = 100 * 49,
      lo_result = Inr (initCSS3Fallbacks (emit (ConsoleWarn GsapFailedToLoad)
                         (load_globals (env maxAttempts) w)))\<rparr>"
    by (intro checkGSAP_exhausts) (simp_all add: maxAttempts_def)
  then show ?thesis
    by (simp add: waitForGSAP_def initCSS3Fallbacks_def emit_def load_globals_def)
qed

theorem fallback_after_polling_budget_witness:
  "\<exists>w'. waitForGSAP (\<lambda>k. no_engine) (\<lambda>p. None) startup demo_world =
            \<lparr>lo_callbacks = 0, lo_checks = 50, lo_waited = 4900, lo_result = Inr w'\<rparr> \<and>
          head_children w' = [StyleElement fallback_css] \<and>
          trace w' = [ConsoleWarn GsapFailedToLoad]"
proof -
  have h: "\<forall>k. 1 \<le> k \<and> k \<le> 50 \<longrightarrow> \<not> (g_gsap no_engine \<and> g_ScrollTrigger no_engine)"
    by (simp add: no_engine_def)
  show ?thesis
    using fallback_after_polling_budget
            [of "\<lambda>k. no_engine" "\<lambda>p. None" startup demo_world, OF h]
    by (simp add: demo_world_def initial_world_def)
qed

lemma checkGSAP_finds_at:
  "attempts + n < maxAttempts \<Longrightarrow>
   \<forall>j. attempts < j \<and> j \<le> attempts + n \<longrightarrow> \<not> engine_seen (env j) \<Longrightarrow>
   engine_seen (env (Suc (attempts + n))) \<Longrightarrow>
   checkGSAP env reg callback attempts w0 =
     (let r = engine_found reg callback
                (emit (ConsoleLog GsapLoaded) (load_globals (env (Suc (attempts + n))) w0))
      in r\<lparr>lo_checks := n + lo_checks r, lo_waited := 100 * n + lo_waited r\<rparr>)"
proof (induction n arbitrary: attempts w0)
  case 0
  then show ?case using checkGSAP_found[of env attempts reg callback w0] by simp
next
  case (Suc n)
  then have ns: "\<not> engine_seen (env (Suc attempts))" and lt: "Suc attempts < maxAttempts"
    by auto
  have "checkGSAP env reg callback (Suc attempts) (load_globals (env (Suc attempts)) w0) =
     (let r = engine_found reg callback
                (emit (ConsoleLog GsapLoaded)
                   (load_globals (env (Suc (Suc attempts + n)))
                      (load_globals (env (Suc attempts)) w0)))
      in r\<lparr>lo_checks := n + lo_checks r, lo_waited := 100 * n + lo_waited r\<rparr>)"
    using Suc.prems by (intro Suc.IH) auto
  then show ?case
    using checkGSAP_retry[of env attempts reg callback w0] ns lt
    by (simp add: after_timeout_def load_globals_twice Let_def)
qed

lemma engine_found_counters:
  "lo_checks (engine_found reg callback w) = 1"
  "lo_waited (engine_found reg callback w) = 0"
  "lo_callbacks (engine_found reg callback w) = 1 \<or> lo_callbacks (engine_found reg callback w) = 2"
  by (auto simp add: engine_found_def split: sum.splits prod.splits)

lemma register_plugins_throws:
  "reg ''ScrollTrigger'' = Some e \<Longrightarrow> register_plugins reg w = Inl (e, w)"
  "reg ''ScrollTrigger'' = None \<Longrightarrow> win_ScrollToPlugin w \<Longrightarrow> reg ''ScrollToPlugin'' = Some e \<Longrightarrow>
     register_plugins reg w = Inl (e, w\<lparr>plugins := plugins w @ [''ScrollTrigger'']\<rparr>)"
  by (simp_all add: register_plugins_def registerPlugin_def)

lemma register_plugins_win:
  "win_gsap (world_of (register_plugins reg w)) = win_gsap w"
  by (auto simp add: register_plugins_def registerPlugin_def split: option.splits)

lemma register_plugins_trace:
  "trace (world_of (register_plugins reg w)) = trace w"
  by (auto simp add: register_plugins_def registerPlugin_def split: option.splits)

lemma waitForGSAP_finds_at:
  assumes "n < 50"
    and "\<forall>j. 1 \<le> j \<and> j \<le> n \<longrightarrow> \<not> (g_gsap (env j) \<and> g_ScrollTrigger (env j))"
    and "g_gsap (env (Suc n)) \<and> g_ScrollTrigger (env (Suc n))"
  shows "waitForGSAP env reg callback w =
     (let r = engine_found reg callback
                (emit (ConsoleLog GsapLoaded) (load_globals (env (Suc n)) w))
      in r\<lparr>lo_checks := n + lo_checks r, lo_waited := 100 * n + lo_waited r\<rparr>)"
  unfolding waitForGSAP_def
  using assms checkGSAP_finds_at[of 0 n env reg callback w]
  by (simp add: maxAttempts_def engine_seen_def)

text \<open>
  C9. The engine is found at check \<open>n + 1\<close> (after \<open>n\<close> misses) and plugin registration
  throws \<open>e\<close>, for the ScrollTrigger plugin or, that one registered, for the ScrollToPlugin
  that is present. Then the exception is caught: the loader logs the warning after the
  success message and invokes the callback exactly once, on the world that carries the
  warning; the loader's outcome is the callback's.
\<close>

theorem registration_failure_is_not_fatal:
  assumes "n < 50"
    and "\<forall>j. 1 \<le> j \<and> j \<le> n \<longrightarrow> \<not> (g_gsap (env j) \<and> g_ScrollTrigger (env j))"
    and "g_gsap (env (Suc n)) \<and> g_ScrollTrigger (env (Suc n))"
    and "reg ''ScrollTrigger'' = Some e \<or>
         (reg ''ScrollTrigger'' = None \<and> g_ScrollToPlugin (env (Suc n)) \<and>
          reg ''ScrollToPlugin'' = Some e)"
  shows "\<exists>w1. waitForGSAP env reg callback w =
            \<lparr>lo_callbacks = 1, lo_checks = Suc n, lo_waited = 100 * n,
             lo_result = callback w1\<rparr> \<and>
          trace w1 = trace w @ [ConsoleLog GsapLoaded, ConsoleWarn (PluginRegistrationFailed e)]"
proof -
  let ?wf = "emit (ConsoleLog GsapLoaded) (load_globals (env (Suc n)) w)"
  have "\<exists>w2. register_plugins reg ?wf = Inl (e, w2)"
    using assms(4) register_plugins_throws[where reg = reg and e = e and w = ?wf]
    by (auto simp add: emit_def load_globals_def)
  then obtain w2 where thrown: "register_plugins reg ?wf = Inl (e, w2)" by blast
  then have tr: "trace w2 = trace ?wf"
    using register_plugins_trace[of reg ?wf] by simp
  have "waitForGSAP env reg callback w =
          \<lparr>lo_callbacks = 1, lo_checks = Suc n, lo_waited = 100 * n,
           lo_result = callback (emit (ConsoleWarn (PluginRegistrationFailed e)) w2)\<rparr>"
    using waitForGSAP_finds_at[OF assms(1-3), of reg callback w] thrown
    by (simp add: engine_found_def catch_handler_def Let_def)
  moreover have "trace (emit (ConsoleWarn (PluginRegistrationFailed e)) w2) =
        trace w @ [ConsoleLog GsapLoaded, ConsoleWarn (PluginRegistrationFailed e)]"
    using tr by (simp add: emit_def load_globals_def)
  ultimately show ?thesis by blast
qed

theorem registration_failure_is_not_fatal_witness:
  "\<exists>w1. waitForGSAP (\<lambda>k. full_engine) failing_registration startup demo_world =
            \<lparr>lo_callbacks = 1, lo_checks = Suc 0, lo_waited = 100 * 0,
             lo_result = startup w1\<rparr> \<and>
          trace w1 = trace demo_world @
            [ConsoleLog GsapLoaded, ConsoleWarn (PluginRegistrationFailed (Thrown ''register''))]"
  using registration_failure_is_not_fatal
          [of 0 "\<lambda>k. full_engine" failing_registration "Thrown ''register''" startup demo_world]
  by (simp add: full_engine_def failing_registration_def)

text \<open>
  C10. On the success path the callback is invoked once or twice. It is invoked twice
  exactly when the registrations succeed and the callback itself throws: the handler of the
  \<open>try\<close> block then logs the registration warning with the callback's exception and
  invokes the callback again, on the world the first invocation left. When the
  registrations succeed and the callback returns, it has run once.
\<close>

theorem callback_runs_once_or_twice:
  assumes "n < 50"
    and "\<forall>j. 1 \<le> j \<and> j \<le> n \<longrightarrow> \<not> (g_gsap (env j) \<and> g_ScrollTrigger (env j))"
    and "g_gsap (env (Suc n)) \<and> g_ScrollTrigger (env (Suc n))"
  shows "(lo_callbacks (waitForGSAP env reg callback w) = 1 \<or>
          lo_callbacks (waitForGSAP env reg callback w) = 2) \<and>
         (\<forall>w1 e w2.
            register_plugins reg (emit (ConsoleLog GsapLoaded) (load_globals (env (Suc n)) w))
              = Inr w1 \<and> callback w1 = Inl (e, w2) \<longrightarrow>
            waitForGSAP env reg callback w =
              \<lparr>lo_callbacks = 2, lo_checks = Suc n, lo_waited = 100 * n,
               lo_result = callback (emit (ConsoleWarn (PluginRegistrationFailed e)) w2)\<rparr>) \<and>
         (\<forall>w1 w2.
            register_plugins reg (emit (ConsoleLog GsapLoaded) (load_globals (env (Suc n)) w))
              = Inr w1 \<and> callback w1 = Inr w2 \<longrightarrow>
            waitForGSAP env reg callback w =
              \<lparr>lo_callbacks = 1, lo_checks = Suc n, lo_waited = 100 * n,
               lo_result = Inr w2\<rparr>)"
  using waitForGSAP_finds_at[OF assms, of reg callback w]
        engine_found_counters(3)[of reg callback
          "emit (ConsoleLog GsapLoaded) (load_globals (env (Suc n)) w)"]
  by (auto simp add: Let_def engine_found_def catch_handler_def)

theorem callback_runs_once_or_twice_witness:
  "lo_callbacks (waitForGSAP (\<lambda>k. full_engine) (\<lambda>p. None) flaky_callback demo_world) = 2 \<and>
   (\<exists>w'. lo_result (waitForGSAP (\<lambda>k. full_engine) (\<lambda>p. None) flaky_callback demo_world)
            = Inr w')"
proof -
  let ?wf = "emit (ConsoleLog GsapLoaded) (load_globals full_engine demo_world)"
  let ?w1 = "?wf\<lparr>plugins := plugins ?wf @ [''ScrollTrigger'', ''ScrollToPlugin'']\<rparr>"
  have reg: "register_plugins (\<lambda>p. None) ?wf = Inr ?w1"
    by (simp add: register_plugins_def registerPlugin_def emit_def load_globals_def
                  full_engine_def)
  have first: "flaky_callback ?w1 = Inl (Thrown ''first call'', ?w1)"
    by (simp add: flaky_callback_def emit_def load_globals_def demo_world_def
                  initial_world_def)
  have "waitForGSAP (\<lambda>k. full_engine) (\<lambda>p. None) flaky_callback demo_world =
          \<lparr>lo_callbacks = 2, lo_checks = Suc 0, lo_waited = 100 * 0,
           lo_result = flaky_callback
             (emit (ConsoleWarn (PluginRegistrationFailed (Thrown ''first call''))) ?w1)\<rparr>"
    using callback_runs_once_or_twice
            [of 0 "\<lambda>k. full_engine" "\<lambda>p. None" flaky_callback demo_world] reg first
    by (simp add: full_engine_def)
  then show ?thesis
    by (simp add: flaky_callback_def emit_def)
qed

section \<open>The controller: properties\<close>

lemmas engine_defs =
  emit_def gsap_config_def ScrollTrigger_config_def gsap_set_def gsap_to_def gsap_timeline_def
  timeline_to_def ScrollTrigger_batch_def ScrollTrigger_create_def

lemma forEach_index_frame:
  assumes "\<And>x i w. g (f x i w) = g w"
  shows "g (forEach_index f i xs w) = g w"
  using assms by (induction xs arbitrary: i w) simp_all

lemma bind_card_hover_ctl [simp]:
  "ctl_gsap (bind_card_hover xs w) = ctl_gsap w"
  "ctl_ScrollTrigger (bind_card_hover xs w) = ctl_ScrollTrigger w"
  "isInitialized (bind_card_hover xs w) = isInitialized w"
  "tweens (bind_card_hover xs w) = tweens w"
  "triggers (bind_card_hover xs w) = triggers w"
  "trace (bind_card_hover xs w) = trace w"
  "qsa (bind_card_hover xs w) = qsa w"
  "qsa_in (bind_card_hover xs w) = qsa_in w"
  by (induction xs arbitrary: w) simp_all

lemma bind_btn_hover_ctl [simp]:
  "ctl_gsap (bind_btn_hover xs w) = ctl_gsap w"
  "ctl_ScrollTrigger (bind_btn_hover xs w) = ctl_ScrollTrigger w"
  "isInitialized (bind_btn_hover xs w) = isInitialized w"
  "tweens (bind_btn_hover xs w) = tweens w"
  "triggers (bind_btn_hover xs w) = triggers w"
  "trace (bind_btn_hover xs w) = trace w"
  "qsa (bind_btn_hover xs w) = qsa w"
  "qsa_in (bind_btn_hover xs w) = qsa_in w"
  by (induction xs arbitrary: w) simp_all

lemma hero_float_ctl [simp]:
  "ctl_gsap (forEach_index hero_float i xs w) = ctl_gsap w"
  "ctl_ScrollTrigger (forEach_index hero_float i xs w) = ctl_ScrollTrigger w"
  "isInitialized (forEach_index hero_float i xs w) = isInitialized w"
  by (rule forEach_index_frame, simp add: hero_float_def engine_defs)+

lemma section_float_ctl [simp]:
  "ctl_gsap (forEach_index section_float i xs w) = ctl_gsap w"
  "ctl_ScrollTrigger (forEach_index section_float i xs w) = ctl_ScrollTrigger w"
  "isInitialized (forEach_index section_float i xs w) = isInitialized w"
  by (rule forEach_index_frame, simp add: section_float_def engine_defs)+

lemma philosophy_item_trigger_ctl [simp]:
  "ctl_gsap (forEach_index philosophy_item_trigger i xs w) = ctl_gsap w"
  "ctl_ScrollTrigger (forEach_index philosophy_item_trigger i xs w) = ctl_ScrollTrigger w"
  "isInitialized (forEach_index philosophy_item_trigger i xs w) = isInitialized w"
  by (rule forEach_index_frame, simp add: philosophy_item_trigger_def engine_defs)+

lemma handleScroll_ctl [simp]:
  "ctl_gsap (handleScroll i w) = ctl_gsap w"
  "ctl_ScrollTrigger (handleScroll i w) = ctl_ScrollTrigger w"
  "isInitialized (handleScroll i w) = isInitialized w"
  by (simp_all add: handleScroll_def Let_def classList_add_def classList_remove_def emit_def)

lemma initHeaderScrollEffect_ctl [simp]:
  "ctl_gsap (initHeaderScrollEffect w) = ctl_gsap w"
  "ctl_ScrollTrigger (initHeaderScrollEffect w) = ctl_ScrollTrigger w"
  "isInitialized (initHeaderScrollEffect w) = isInitialized w"
  by (simp_all add: initHeaderScrollEffect_def Let_def emit_def split: option.splits)

lemma settled_setInitialStates: "settled setInitialStates"
  by (simp add: settled_def setInitialStates_def this_gsap_def Let_def engine_defs)

lemma settled_initSimpleAnimations: "settled initSimpleAnimations"
  by (simp add: settled_def initSimpleAnimations_def this_gsap_def Let_def engine_defs)

lemma settled_animateHero: "settled animateHero"
  by (simp add: settled_def animateHero_def this_gsap_def Let_def engine_defs)

lemma settled_animateSections: "settled animateSections"
  by (simp add: settled_def animateSections_def this_gsap_def Let_def engine_defs
           split: option.splits)

lemma settled_animateCards: "settled animateCards"
  by (simp add: settled_def animateCards_def this_gsap_def Let_def engine_defs)

lemma settled_animateButtons: "settled animateButtons"
  by (simp add: settled_def animateButtons_def Let_def engine_defs)

lemma settled_animateFloatingElements: "settled animateFloatingElements"
  by (simp add: settled_def animateFloatingElements_def this_gsap_def Let_def engine_defs)

lemma settled_animatePhilosophySection: "settled animatePhilosophySection"
  by (simp add: settled_def animatePhilosophySection_def this_gsap_def Let_def engine_defs
           split: option.splits)

lemma settled_and_then:
  assumes "settled f" and "settled g"
  shows "settled (\<lambda>w. and_then (f w) g)"
  unfolding settled_def
proof (intro allI impI)
  fix w :: world assume "ctl_gsap w"
  with assms(1) obtain w1 where 1: "f w = Inr w1" "ctl_gsap w1"
    "ctl_ScrollTrigger w1 = ctl_ScrollTrigger w" unfolding settled_def by blast
  with assms(2) obtain w2 where 2: "g w1 = Inr w2" "ctl_gsap w2"
    "ctl_ScrollTrigger w2 = ctl_ScrollTrigger w1" unfolding settled_def by blast
  from 1 2 show "\<exists>w'. and_then (f w) g = Inr w' \<and> ctl_gsap w' \<and>
      ctl_ScrollTrigger w' = ctl_ScrollTrigger w" by simp
qed

lemma settled_after:
  assumes "settled f"
    and "\<And>w. ctl_gsap (g w) = ctl_gsap w"
    and "\<And>w. ctl_ScrollTrigger (g w) = ctl_ScrollTrigger w"
  shows "settled (\<lambda>w. f (g w))"
  unfolding settled_def
proof (intro allI impI)
  fix w :: world assume "ctl_gsap w"
  then have "ctl_gsap (g w)" by (simp add: assms(2))
  with assms(1) obtain w' where
    "f (g w) = Inr w'" "ctl_gsap w'" "ctl_ScrollTrigger w' = ctl_ScrollTrigger (g w)"
    unfolding settled_def by blast
  then show "\<exists>w'. f (g w) = Inr w' \<and> ctl_gsap w' \<and>
      ctl_ScrollTrigger w' = ctl_ScrollTrigger w" by (simp add: assms(3))
qed

lemma settled_initFullAnimations: "settled initFullAnimations"
proof -
  have h: "settled (\<lambda>w. animatePhilosophySection (initHeaderScrollEffect w))"
    by (rule settled_after[where f = animatePhilosophySection and g = initHeaderScrollEffect])
       (simp_all add: settled_animatePhilosophySection)
  have "settled (\<lambda>w. and_then (setInitialStates w) (\<lambda>w.
         and_then (animateHero w) (\<lambda>w.
         and_then (animateSections w) (\<lambda>w.
         and_then (animateCards w) (\<lambda>w.
         and_then (animateButtons w) (\<lambda>w.
         and_then (animateFloatingElements w) (\<lambda>w.
         animatePhilosophySection (initHeaderScrollEffect w))))))))"
    by (intro settled_and_then settled_setInitialStates settled_animateHero
          settled_animateSections settled_animateCards settled_animateButtons
          settled_animateFloatingElements h)
  then have "settled (\<lambda>w. (\<lambda>w. and_then (setInitialStates w) (\<lambda>w.
         and_then (animateHero w) (\<lambda>w.
         and_then (animateSections w) (\<lambda>w.
         and_then (animateCards w) (\<lambda>w.
         and_then (animateButtons w) (\<lambda>w.
         and_then (animateFloatingElements w) (\<lambda>w.
         animatePhilosophySection (initHeaderScrollEffect w)))))))) 
           (emit (Enter ''initFullAnimations'') w))"
    by (rule settled_after[where g = "emit (Enter ''initFullAnimations'')"])
       (simp_all add: emit_def)
  then show ?thesis
    by (simp add: settled_def initFullAnimations_def Let_def)
qed

lemma init_first_call:
  assumes "\<not> isInitialized w" and "win_gsap w"
  shows "\<exists>w'. init w = Inr w' \<and> isInitialized w' \<and> ctl_gsap w' \<and>
           ctl_ScrollTrigger w' = win_ScrollTrigger w"
proof -
  let ?w1 = "(emit (Enter ''init'') w)\<lparr>ctl_gsap := win_gsap w,
               ctl_ScrollTrigger := win_ScrollTrigger w\<rparr>"
  let ?w2 = "gsap_config [(''force3D'', Bool True), (''nullTargetWarn'', Bool False)] ?w1"
  let ?w3 = "if ctl_ScrollTrigger ?w2
             then ScrollTrigger_config [(''ignoreMobileResize'', Bool True)] ?w2 else ?w2"
  let ?f = "if prefersReducedMotion ?w3 then initSimpleAnimations else initFullAnimations"
  have g3: "ctl_gsap ?w3" "ctl_ScrollTrigger ?w3 = win_ScrollTrigger w"
    using assms(2) by (simp_all add: engine_defs)
  have "settled ?f"
    using settled_initSimpleAnimations settled_initFullAnimations by simp
  with g3 obtain w4 where 4: "?f ?w3 = Inr w4" "ctl_gsap w4"
    "ctl_ScrollTrigger w4 = win_ScrollTrigger w"
    unfolding settled_def by metis
  have "init w = and_then (?f ?w3)
          (\<lambda>w. Inr (emit (ConsoleLog AnimationsInitialized) (w\<lparr>isInitialized := True\<rparr>)))"
    using assms by (simp add: init_def this_gsap_def Let_def emit_def gsap_config_def ScrollTrigger_config_def)
  with 4 show ?thesis by (simp add: emit_def)
qed

lemma init_again: "isInitialized w \<Longrightarrow> init w = Inr (emit (Enter ''init'') w)"
  by (simp add: init_def Let_def emit_def)

lemma startup_returns:
  assumes "win_gsap w"
  shows "\<exists>w'. startup w = Inr w' \<and> isInitialized w'"
proof (cases "isInitialized w")
  case True
  then show ?thesis
    by (simp add: startup_def init_again initSmoothScrolling_def Let_def emit_def)
next
  case False
  from init_first_call[OF False assms]
  obtain w1 where "init w = Inr w1" "isInitialized w1" by blast
  then show ?thesis
    by (simp add: startup_def initSmoothScrolling_def Let_def emit_def)
qed

lemma engine_found_startup:
  assumes "win_gsap w"
  shows "\<exists>w'. engine_found reg startup w =
            \<lparr>lo_callbacks = 1, lo_checks = 1, lo_waited = 0, lo_result = Inr w'\<rparr> \<and>
          isInitialized w'"
proof (cases "register_plugins reg w")
  case (Inl ew)
  obtain e w1 where ew: "ew = (e, w1)" by (cases ew)
  have "win_gsap (emit (ConsoleWarn (PluginRegistrationFailed e)) w1)"
    using register_plugins_win[of reg w] Inl ew assms by (simp add: emit_def)
  from startup_returns[OF this] Inl ew show ?thesis
    by (auto simp add: engine_found_def catch_handler_def)
next
  case (Inr w1)
  have "win_gsap w1" using register_plugins_win[of reg w] Inr assms by simp
  from startup_returns[OF this] Inr show ?thesis
    by (auto simp add: engine_found_def)
qed

lemma checkGSAP_startup_aux:
  "callback = startup \<Longrightarrow>
   lo_callbacks (checkGSAP env reg callback attempts w0) = 0 \<or>
   (lo_callbacks (checkGSAP env reg callback attempts w0) = 1 \<and>
    (\<exists>w'. lo_result (checkGSAP env reg callback attempts w0) = Inr w' \<and> isInitialized w'))"
proof (induction env reg callback attempts w0 rule: checkGSAP.induct)
  case (1 env reg callback attempts w0)
  let ?w = "load_globals (env (attempts + 1)) w0"
  show ?case
  proof (cases "win_gsap ?w \<and> win_ScrollTrigger ?w")
    case True
    then have seen: "engine_seen (env (Suc attempts))"
      by (simp add: engine_seen_def load_globals_def)
    have "win_gsap (emit (ConsoleLog GsapLoaded) ?w)" using True by (simp add: emit_def)
    from engine_found_startup[OF this, of reg] show ?thesis
      using checkGSAP_found[of env attempts reg callback w0] seen "1.prems"
      by auto
  next
    case False
    then have ns: "\<not> engine_seen (env (Suc attempts))"
      by (simp add: engine_seen_def load_globals_def)
    show ?thesis
    proof (cases "attempts + 1 < maxAttempts")
      case lt: True
      from "1.IH"[OF refl refl False lt "1.prems"] show ?thesis
        using checkGSAP_retry[of env attempts reg callback w0] ns lt
        by (simp add: after_timeout_def)
    next
      case ge: False
      then show ?thesis
        using checkGSAP_give_up[of env attempts reg callback w0] ns
        by simp
    qed
  qed
qed

text \<open>
  C6. A call of \<open>init\<close> on an initialised controller returns at once: the world is the one
  before the call, but for the record of the call in the trace; nothing is configured or set
  up again. A first call made with the engine on \<open>window\<close> returns with the controller
  initialised, and the next call is such a no-op. The script makes that first call through
  the loader's callback only: a run of the loader invokes the callback not at all (no engine
  found) or exactly once, and then it returns with the controller initialised.
\<close>

theorem init_is_idempotent:
  "(isInitialized w \<longrightarrow> init w = Inr (emit (Enter ''init'') w)) \<and>
   (\<not> isInitialized w \<and> win_gsap w \<longrightarrow>
      (\<exists>w'. init w = Inr w' \<and> isInitialized w' \<and>
            init w' = Inr (emit (Enter ''init'') w'))) \<and>
   (lo_callbacks (initialize env reg w) = 0 \<or>
    (lo_callbacks (initialize env reg w) = 1 \<and>
     (\<exists>w'. lo_result (initialize env reg w) = Inr w' \<and> isInitialized w')))"
proof (intro conjI impI)
  assume "isInitialized w"
  then show "init w = Inr (emit (Enter ''init'') w)" by (rule init_again)
next
  assume a: "\<not> isInitialized w \<and> win_gsap w"
  then obtain w' where w': "init w = Inr w'" "isInitialized w'"
    using init_first_call[of w] by blast
  then have "init w' = Inr (emit (Enter ''init'') w')" by (intro init_again)
  with w' show "\<exists>w'. init w = Inr w' \<and> isInitialized w' \<and>
            init w' = Inr (emit (Enter ''init'') w')" by blast
next
  show "lo_callbacks (initialize env reg w) = 0 \<or>
    (lo_callbacks (initialize env reg w) = 1 \<and>
     (\<exists>w'. lo_result (initialize env reg w) = Inr w' \<and> isInitialized w'))"
    using checkGSAP_startup_aux[OF refl, of env reg 0 w]
    by (simp add: initialize_def waitForGSAP_def)
qed

theorem init_is_idempotent_witness:
  "(\<exists>w'. init engine_ready_world = Inr w' \<and> isInitialized w' \<and>
         init w' = Inr (emit (Enter ''init'') w')) \<and>
   lo_callbacks (initialize (\<lambda>k. full_engine) (\<lambda>p. None) demo_world) = 1"
proof -
  have "lo_callbacks (initialize (\<lambda>k. full_engine) (\<lambda>p. None) demo_world) \<noteq> 0"
    using waitForGSAP_finds_at[of 0 "\<lambda>k. full_engine" "\<lambda>p. None" startup demo_world]
          engine_found_counters(3)[of "\<lambda>p. None" startup
            "emit (ConsoleLog GsapLoaded) (load_globals full_engine demo_world)"]
    by (auto simp add: initialize_def full_engine_def Let_def)
  then show ?thesis
    using init_is_idempotent[of engine_ready_world "\<lambda>k. full_engine" "\<lambda>p. None"]
          init_is_idempotent[of demo_world "\<lambda>k. full_engine" "\<lambda>p. None"]
    by (simp add: engine_ready_world_def load_globals_def full_engine_def demo_world_def
          initial_world_def)
qed


lemma init_reduced_motion:
  assumes "prefersReducedMotion w" and "\<not> isInitialized w" and "win_gsap w"
  shows "\<exists>w'. init w = Inr w' \<and>
           trace w' = trace w @ [Enter ''init'', Enter ''initSimpleAnimations'',
                                 ConsoleLog AnimationsInitialized] \<and>
           tweens w' = tweens w @
             [simple_batch (qsa w ''.hero-title, .hero-subtitle, .section-title, .card, .text-large'')] \<and>
           triggers w' = triggers w \<and> cardClosures w' = cardClosures w \<and>
           btnClosures w' = btnClosures w \<and> scrollClosures w' = scrollClosures w"
  using assms
  by (simp add: init_def initSimpleAnimations_def this_gsap_def Let_def engine_defs
        prefersReducedMotion_def simple_batch_def)

lemma init_without_engine:
  assumes "\<not> isInitialized w" and "\<not> win_gsap w"
  shows "init w = Inl (TypeError ''this.gsap'',
           (emit (Enter ''init'') w)\<lparr>ctl_gsap := False,
              ctl_ScrollTrigger := win_ScrollTrigger w\<rparr>)"
  using assms by (simp add: init_def this_gsap_def Let_def emit_def)

text \<open>
  C2. With the reduced-motion query matching, a call of \<open>init\<close> enters none of the methods
  of the full choreography. What it adds to the trace is its own entry and, when it runs
  (controller not yet initialised, engine present), the entry of \<open>initSimpleAnimations\<close> and
  the final message; the only tween it starts is the abbreviated batch, and it creates no
  scroll trigger and binds no listener.
\<close>

theorem reduced_motion_runs_simple_batch_only:
  assumes "prefersReducedMotion w"
  shows "(\<forall>f \<in> set full_choreography. Enter f \<notin> set (entries_since w (world_of (init w)))) \<and>
         entries_since w (world_of (init w)) =
           (if isInitialized w \<or> \<not> win_gsap w then [Enter ''init'']
            else [Enter ''init'', Enter ''initSimpleAnimations'',
                  ConsoleLog AnimationsInitialized]) \<and>
         tweens (world_of (init w)) = tweens w @
           (if isInitialized w \<or> \<not> win_gsap w then []
            else [simple_batch
                    (qsa w ''.hero-title, .hero-subtitle, .section-title, .card, .text-large'')]) \<and>
         triggers (world_of (init w)) = triggers w \<and>
         cardClosures (world_of (init w)) = cardClosures w \<and>
         btnClosures (world_of (init w)) = btnClosures w \<and>
         scrollClosures (world_of (init w)) = scrollClosures w"
proof (cases "isInitialized w")
  case True
  then show ?thesis
    by (simp add: init_again emit_def entries_since_def full_choreography_def)
next
  case False
  show ?thesis
  proof (cases "win_gsap w")
    case True
    with False assms init_reduced_motion[of w] show ?thesis
      by (auto simp add: entries_since_def full_choreography_def)
  next
    case ne: False
    with False show ?thesis
      by (simp add: init_without_engine emit_def entries_since_def full_choreography_def)
  qed
qed

theorem reduced_motion_runs_simple_batch_only_witness:
  "entries_since reduced_motion_world (world_of (init reduced_motion_world)) =
     [Enter ''init'', Enter ''initSimpleAnimations'', ConsoleLog AnimationsInitialized] \<and>
   tweens (world_of (init reduced_motion_world)) = [simple_batch []] \<and>
   triggers (world_of (init reduced_motion_world)) = []"
  using reduced_motion_runs_simple_batch_only[of reduced_motion_world]
  by (simp add: reduced_motion_world_def engine_ready_world_def load_globals_def
        full_engine_def demo_world_def initial_world_def prefersReducedMotion_def
        demo_qsa_def)

lemmas choreography_defs =
  initFullAnimations_def setInitialStates_def animateHero_def animateSections_def
  animateCards_def animateButtons_def animateFloatingElements_def initHeaderScrollEffect_def
  animatePhilosophySection_def handleScroll_def philosophy_item_trigger_def
  this_gsap_def Let_def engine_defs new_tween_def new_trigger_def querySelector_def
  querySelector_in_def classList_add_def classList_remove_def scrollTop_def




text \<open>
  A reveal outside the three families above. \<open>setInitialStates\<close> hides the section dividers
  (\<open>scaleX: 0\<close>); with ScrollTrigger \<open>animateSections\<close> reveals them through the batch on
  \<open>.section-divider\<close>; without it the branch of \<open>animateSections\<close> starts one tween on the
  titles and text only. On the sample page the divider (element 10) is among the elements
  revealed on scroll and is the target of no tween started without the plugin.
\<close>

lemma section_dividers_stay_hidden:
  "10 \<in> set (scroll_revealed gsap_only_world) \<and>
   10 \<notin> set (revealed_at_once gsap_only_world) \<and>
   \<not> every_scroll_reveal_replaced gsap_only_world"
proof -
  have a: "scroll_revealed gsap_only_world = [10, 1, 2, 7, 8, 9]"
    by (simp add: scroll_revealed_def gsap_only_world_def demo_world_def initial_world_def
          demo_qsa_def demo_qsa_in_def choreography_defs)
  have b: "revealed_at_once gsap_only_world = [5, 1, 2, 7, 8, 9]"
    by (simp add: revealed_at_once_def gsap_only_world_def demo_world_def initial_world_def
          demo_qsa_def demo_qsa_in_def choreography_defs)
  show ?thesis by (simp add: a b every_scroll_reveal_replaced_def)
qed

section \<open>The header scroll effect: properties\<close>

lemma handleScroll_establishes:
  assumes "scrollClosures w = [\<lparr>sc_header = header, sc_isScrolled = b\<rparr>]"
    and "(''scrolled'' \<in> set (classes w header)) = b"
  shows "scroll_inv header (handleScroll 0 w)"
  using assms
  by (auto simp add: scroll_inv_def handleScroll_def Let_def classList_add_def
        classList_remove_def emit_def scrollTop_def)

lemma handleScroll_same_side:
  assumes "scrollClosures w = [\<lparr>sc_header = header, sc_isScrolled = b\<rparr>]"
    and "(scrollTop w > 50) = b"
  shows "handleScroll 0 w = w"
  using assms by (simp add: handleScroll_def Let_def)

lemma initHeaderScrollEffect_establishes:
  assumes "scrollClosures w0 = []"
    and "querySelector w0 ''.site-header'' = Some header"
    and "''scrolled'' \<notin> set (classes w0 header)"
  shows "scroll_inv header (initHeaderScrollEffect w0)"
proof -
  let ?w1 = "(emit (Enter ''initHeaderScrollEffect'') w0)
               \<lparr>scrollClosures := [\<lparr>sc_header = header, sc_isScrolled = False\<rparr>]\<rparr>"
  have "initHeaderScrollEffect w0 = handleScroll 0 ?w1"
    using assms(1,2)
    by (simp add: initHeaderScrollEffect_def Let_def emit_def querySelector_def)
  moreover have "scroll_inv header (handleScroll 0 ?w1)"
    using assms(3) by (intro handleScroll_establishes[where b = False]) (simp_all add: emit_def)
  ultimately show ?thesis by simp
qed

lemma scroll_unfold:
  assumes "scroll_inv header w"
  shows "scroll yd w = handleScroll 0 (w\<lparr>pageYOffset := fst yd, docScrollTop := snd yd\<rparr>)"
  using assms by (simp add: scroll_def scroll_inv_def Let_def)

lemma scroll_preserves:
  assumes "scroll_inv header w"
  shows "scroll_inv header (scroll yd w)"
proof -
  let ?w = "w\<lparr>pageYOffset := fst yd, docScrollTop := snd yd\<rparr>"
  have "scroll_inv header (handleScroll 0 ?w)"
    using assms
    by (intro handleScroll_establishes[where b = "scrollTop w > 50"])
       (simp_all add: scroll_inv_def)
  then show ?thesis using scroll_unfold[OF assms] by simp
qed

lemma scrolls_preserves:
  "scroll_inv header w \<Longrightarrow> scroll_inv header (scrolls evs w)"
  by (induction evs arbitrary: w) (simp_all add: scroll_preserves)

lemma scroll_same_side:
  assumes "scroll_inv header w"
    and "(scrollTop (w\<lparr>pageYOffset := fst yd, docScrollTop := snd yd\<rparr>) > 50) = (scrollTop w > 50)"
  shows "scroll yd w = w\<lparr>pageYOffset := fst yd, docScrollTop := snd yd\<rparr>"
proof -
  let ?w = "w\<lparr>pageYOffset := fst yd, docScrollTop := snd yd\<rparr>"
  have "handleScroll 0 ?w = ?w"
    using assms
    by (intro handleScroll_same_side[where b = "scrollTop w > 50"])
       (simp_all add: scroll_inv_def)
  then show ?thesis using scroll_unfold[OF assms(1)] by simp
qed

lemma scroll_offsets:
  assumes "scroll_inv header w"
  shows "scrollTop (scroll yd w) = scrollTop (w\<lparr>pageYOffset := fst yd, docScrollTop := snd yd\<rparr>)"
  using scroll_unfold[OF assms, of yd]
  by (simp add: handleScroll_def Let_def classList_add_def classList_remove_def emit_def
        scrollTop_def)

lemma handleScroll_flag:
  assumes "scrollClosures w = [\<lparr>sc_header = header, sc_isScrolled = b\<rparr>]"
  shows "flag_inv header (handleScroll 0 w)"
    and "trace (handleScroll 0 w) = trace w @ crossing header b (scrollTop w > 50)"
    and "scrollTop (handleScroll 0 w) = scrollTop w"
  using assms
  by (auto simp add: flag_inv_def handleScroll_def Let_def classList_add_def
        classList_remove_def emit_def scrollTop_def crossing_def)

lemma initHeaderScrollEffect_flag:
  assumes "scrollClosures w0 = []" and "querySelector w0 ''.site-header'' = Some header"
  shows "flag_inv header (initHeaderScrollEffect w0)"
proof -
  let ?w1 = "(emit (Enter ''initHeaderScrollEffect'') w0)
               \<lparr>scrollClosures := [\<lparr>sc_header = header, sc_isScrolled = False\<rparr>]\<rparr>"
  have "initHeaderScrollEffect w0 = handleScroll 0 ?w1"
    using assms by (simp add: initHeaderScrollEffect_def Let_def emit_def querySelector_def)
  moreover have "flag_inv header (handleScroll 0 ?w1)"
    by (rule handleScroll_flag(1)[where b = False]) simp
  ultimately show ?thesis by simp
qed

lemma scroll_flag:
  assumes "flag_inv header w"
  shows "flag_inv header (scroll yd w)"
    and "trace (scroll yd w) = trace w @
           crossing header (scrollTop w > 50) (scrollTop (scroll yd w) > 50)"
proof -
  let ?w = "w\<lparr>pageYOffset := fst yd, docScrollTop := snd yd\<rparr>"
  have c: "scrollClosures ?w = [\<lparr>sc_header = header, sc_isScrolled = (scrollTop w > 50)\<rparr>]"
    using assms by (simp add: flag_inv_def)
  have u: "scroll yd w = handleScroll 0 ?w"
    using assms by (simp add: scroll_def flag_inv_def Let_def)
  show "flag_inv header (scroll yd w)"
    using handleScroll_flag(1)[OF c] u by simp
  show "trace (scroll yd w) = trace w @
           crossing header (scrollTop w > 50) (scrollTop (scroll yd w) > 50)"
    using handleScroll_flag(2,3)[OF c] u by simp
qed

lemma scrolls_flag: "flag_inv header w \<Longrightarrow> flag_inv header (scrolls evs w)"
  by (induction evs arbitrary: w) (simp_all add: scroll_flag(1))


lemma scroll_same_side_flag:
  assumes "flag_inv header w"
    and "(scrollTop (scroll yd w) > 50) = (scrollTop w > 50)"
  shows "scroll yd w = w\<lparr>pageYOffset := fst yd, docScrollTop := snd yd\<rparr>"
proof -
  let ?w = "w\<lparr>pageYOffset := fst yd, docScrollTop := snd yd\<rparr>"
  have c: "scrollClosures ?w = [\<lparr>sc_header = header, sc_isScrolled = (scrollTop w > 50)\<rparr>]"
    using assms(1) by (simp add: flag_inv_def)
  have u: "scroll yd w = handleScroll 0 ?w"
    using assms(1) by (simp add: scroll_def flag_inv_def Let_def)
  have "scrollTop ?w = scrollTop (scroll yd w)"
    using handleScroll_flag(3)[OF c] u by simp
  with assms(2) have "(scrollTop ?w > 50) = (scrollTop w > 50)" by simp
  from handleScroll_same_side[OF c this] u show ?thesis by simp
qed

text \<open>
  C3, as stated, fails. The listener keeps its own flag, \<open>false\<close> at first, and never reads
  the class list of the header. On the sample page with a header that carries the class
  \<open>scrolled\<close> from the start, the header still has the class after scroll events to the
  offsets 10 and 20, both below the threshold: the flag never changes, so the listener
  never removes the class. This is so for the effect set up on that page directly, and for
  the page loaded by the script with the engine present.
\<close>

theorem header_class_outlives_low_offset:
  "''scrolled'' \<in> set (classes (scrolls [(10, 10), (20, 20)]
                                  (initHeaderScrollEffect scrolled_header_world)) 0) \<and>
   scrollTop (scrolls [(10, 10), (20, 20)] (initHeaderScrollEffect scrolled_header_world)) = 20 \<and>
   reachable scrolled_header_run \<and>
   ''scrolled'' \<in> set (classes scrolled_header_run 0) \<and>
   scrollTop scrolled_header_run = 20"
proof -
  have r: "reachable scrolled_header_run"
    unfolding scrolled_header_run_def scrolled_header_world_def
    by (intro reachable.step reachable.start)
  have a: "''scrolled'' \<in> set (classes (scrolls [(10, 10), (20, 20)]
                                  (initHeaderScrollEffect scrolled_header_world)) 0)"
    by code_simp
  have b: "scrollTop (scrolls [(10, 10), (20, 20)]
                        (initHeaderScrollEffect scrolled_header_world)) = 20"
    by code_simp
  have c: "''scrolled'' \<in> set (classes scrolled_header_run 0)" by code_simp
  have d: "scrollTop scrolled_header_run = 20" by code_simp
  from r a b c d show ?thesis by simp
qed

text \<open>
  C3, amended. \<open>initHeaderScrollEffect\<close> finds the header and binds its listener, the first
  scroll listener of the controller. After it, and after any sequence of scroll events:
  \<^item> if the header did not carry the class \<open>scrolled\<close> when the listener was bound, the
    header has the class exactly when the offset the listener reads exceeds 50;
  \<^item> the class-list mutations of a further scroll event are: one \<open>add\<close> if the offset
    crosses to above 50, one \<open>remove\<close> if it crosses back to 50 or below, none otherwise;
  \<^item> an event that leaves the offset on the same side of the threshold changes nothing
    in the world but the two offsets.
\<close>

theorem header_class_tracks_scroll_offset:
  assumes "scrollClosures w0 = []"
    and "querySelector w0 ''.site-header'' = Some header"
  shows "(''scrolled'' \<notin> set (classes w0 header) \<longrightarrow>
           ((''scrolled'' \<in> set (classes (scrolls evs (initHeaderScrollEffect w0)) header)) =
            (scrollTop (scrolls evs (initHeaderScrollEffect w0)) > 50))) \<and>
         entries_since (scrolls evs (initHeaderScrollEffect w0))
             (scroll yd (scrolls evs (initHeaderScrollEffect w0))) =
           crossing header
             (scrollTop (scrolls evs (initHeaderScrollEffect w0)) > 50)
             (scrollTop (scroll yd (scrolls evs (initHeaderScrollEffect w0))) > 50) \<and>
         ((scrollTop (scroll yd (scrolls evs (initHeaderScrollEffect w0))) > 50) =
            (scrollTop (scrolls evs (initHeaderScrollEffect w0)) > 50) \<longrightarrow>
          scroll yd (scrolls evs (initHeaderScrollEffect w0)) =
            (scrolls evs (initHeaderScrollEffect w0))
              \<lparr>pageYOffset := fst yd, docScrollTop := snd yd\<rparr>)"
proof -
  let ?w = "scrolls evs (initHeaderScrollEffect w0)"
  have f: "flag_inv header ?w"
    using assms by (intro scrolls_flag initHeaderScrollEffect_flag)
  have 1: "''scrolled'' \<notin> set (classes w0 header) \<longrightarrow>
           ((''scrolled'' \<in> set (classes ?w header)) = (scrollTop ?w > 50))"
  proof
    assume "''scrolled'' \<notin> set (classes w0 header)"
    with assms have "scroll_inv header ?w"
      by (intro scrolls_preserves initHeaderScrollEffect_establishes)
    then show "(''scrolled'' \<in> set (classes ?w header)) = (scrollTop ?w > 50)"
      by (simp add: scroll_inv_def)
  qed
  have 2: "entries_since ?w (scroll yd ?w) =
             crossing header (scrollTop ?w > 50) (scrollTop (scroll yd ?w) > 50)"
    using scroll_flag(2)[OF f, of yd] by (simp add: entries_since_def)
  have 3: "(scrollTop (scroll yd ?w) > 50) = (scrollTop ?w > 50) \<longrightarrow>
      scroll yd ?w = ?w\<lparr>pageYOffset := fst yd, docScrollTop := snd yd\<rparr>"
    using scroll_same_side_flag[OF f, of yd] by simp
  from 1 2 3 show ?thesis by blast
qed

theorem header_class_tracks_scroll_offset_witness:
  "''scrolled'' \<in> set (classes (scrolls [(10, 10), (60, 60)] (initHeaderScrollEffect demo_world)) 0)
   \<and> scrollTop (scrolls [(10, 10), (60, 60)] (initHeaderScrollEffect demo_world)) = 60"
proof -
  have "scrollTop (scrolls [(10, 10), (60, 60)] (initHeaderScrollEffect demo_world)) = 60"
    by (simp add: initHeaderScrollEffect_def handleScroll_def scroll_def scrollTop_def Let_def
          querySelector_def demo_world_def initial_world_def demo_qsa_def emit_def
          classList_add_def classList_remove_def)
  then show ?thesis
    using header_class_tracks_scroll_offset[of demo_world 0 "[(10, 10), (60, 60)]" "(70, 70)"]
    by (simp add: demo_world_def initial_world_def querySelector_def demo_qsa_def)
qed


section \<open>The card hover bindings: properties\<close>

lemma at_most_one_of_equal:
  assumes "distinct xs" and "\<And>x y. x \<in> set xs \<Longrightarrow> y \<in> set xs \<Longrightarrow> x = y"
  shows "length xs \<le> 1"
proof (cases xs)
  case Nil
  then show ?thesis by simp
next
  case (Cons a ys)
  show ?thesis
  proof (cases ys)
    case Nil
    with Cons show ?thesis by simp
  next
    case (Cons b zs)
    with \<open>xs = a # ys\<close> assms(1) have "a \<noteq> b" by simp
    moreover have "a = b" using assms(2)[of a b] Cons \<open>xs = a # ys\<close> by simp
    ultimately show ?thesis by simp
  qed
qed

lemma hover_invD:
  assumes "hover_inv w" and "j < length (tweens w)"
    and "card_hover_origin (tw_origin (tweens w ! j))" and "\<not> tw_killed (tweens w ! j)"
  shows "\<exists>i < length (cardClosures w).
           cc_hoverTween (cardClosures w ! i) = Some j \<and>
           tw_target (tweens w ! j) = Element (Some (cc_card (cardClosures w ! i)))"
  using assms unfolding hover_inv_def by blast

lemma hover_invI:
  assumes "distinct (map cc_card (cardClosures w))"
    and "\<And>j. j < length (tweens w) \<Longrightarrow> card_hover_origin (tw_origin (tweens w ! j)) \<Longrightarrow>
           \<not> tw_killed (tweens w ! j) \<Longrightarrow>
           \<exists>i < length (cardClosures w).
             cc_hoverTween (cardClosures w ! i) = Some j \<and>
             tw_target (tweens w ! j) = Element (Some (cc_card (cardClosures w ! i)))"
  shows "hover_inv w"
  using assms unfolding hover_inv_def by blast

lemma hover_inv_distinct: "hover_inv w \<Longrightarrow> distinct (map cc_card (cardClosures w))"
  unfolding hover_inv_def by blast

lemma active_hover_tweensD:
  assumes "x \<in> set (active_hover_tweens el w)"
  shows "x < length (tweens w)" and "card_hover_origin (tw_origin (tweens w ! x))"
    and "tw_target (tweens w ! x) = Element (Some el)" and "\<not> tw_killed (tweens w ! x)"
  using assms by (simp_all add: active_hover_tweens_def active_hover_def)

lemma hover_inv_at_most_one:
  assumes "hover_inv w"
  shows "length (active_hover_tweens el w) \<le> 1"
proof (rule at_most_one_of_equal)
  show "distinct (active_hover_tweens el w)"
    by (simp add: active_hover_tweens_def)
next
  fix x y
  assume x: "x \<in> set (active_hover_tweens el w)" and y: "y \<in> set (active_hover_tweens el w)"
  let ?cs = "cardClosures w"
  from hover_invD[OF assms active_hover_tweensD(1,2,4)[OF x]] active_hover_tweensD(3)[OF x]
  obtain i where i: "i < length ?cs" "cc_hoverTween (?cs ! i) = Some x" "cc_card (?cs ! i) = el"
    by auto
  from hover_invD[OF assms active_hover_tweensD(1,2,4)[OF y]] active_hover_tweensD(3)[OF y]
  obtain k where k: "k < length ?cs" "cc_hoverTween (?cs ! k) = Some y" "cc_card (?cs ! k) = el"
    by auto
  have "map cc_card ?cs ! i = map cc_card ?cs ! k" using i k by simp
  then have "i = k"
    using i(1) k(1) hover_inv_distinct[OF assms] nth_eq_iff_index_eq[of "map cc_card ?cs" i k]
    by simp
  with i k show "x = y" by simp
qed

lemma tween_kill_fields [simp]:
  "length (tweens (tween_kill t w)) = length (tweens w)"
  "cardClosures (tween_kill t w) = cardClosures w"
  "btnClosures (tween_kill t w) = btnClosures w"
  "ctl_gsap (tween_kill t w) = ctl_gsap w"
  by (simp_all add: tween_kill_def)

lemma tween_kill_nth:
  "j < length (tweens w) \<Longrightarrow>
   tweens (tween_kill t w) ! j =
     (if j = t then (tweens w ! j)\<lparr>tw_killed := True\<rparr> else tweens w ! j)"
  by (simp add: tween_kill_def)

lemma kill_if_set_fields [simp]:
  "length (tweens (kill_if_set h w)) = length (tweens w)"
  "cardClosures (kill_if_set h w) = cardClosures w"
  "btnClosures (kill_if_set h w) = btnClosures w"
  "ctl_gsap (kill_if_set h w) = ctl_gsap w"
  by (simp_all add: kill_if_set_def split: option.splits)

lemma hover_inv_tween_kill:
  assumes "hover_inv w"
  shows "hover_inv (tween_kill t w)"
proof (rule hover_invI)
  show "distinct (map cc_card (cardClosures (tween_kill t w)))"
    using hover_inv_distinct[OF assms] by simp
next
  fix j
  assume j: "j < length (tweens (tween_kill t w))"
    and o: "card_hover_origin (tw_origin (tweens (tween_kill t w) ! j))"
    and a: "\<not> tw_killed (tweens (tween_kill t w) ! j)"
  from j have j': "j < length (tweens w)" by simp
  have same: "tweens (tween_kill t w) ! j = tweens w ! j"
    using a tween_kill_nth[OF j', of t] by (cases "j = t") simp_all
  from hover_invD[OF assms j'] o a same
  show "\<exists>i < length (cardClosures (tween_kill t w)).
          cc_hoverTween (cardClosures (tween_kill t w) ! i) = Some j \<and>
          tw_target (tweens (tween_kill t w) ! j) =
            Element (Some (cc_card (cardClosures (tween_kill t w) ! i)))"
    by simp
qed

lemma hover_inv_kill_if_set: "hover_inv w \<Longrightarrow> hover_inv (kill_if_set h w)"
  by (simp add: kill_if_set_def hover_inv_tween_kill split: option.splits)

lemma kill_if_set_killed:
  "t < length (tweens w) \<Longrightarrow> tw_killed (tweens (kill_if_set (Some t) w) ! t)"
  by (simp add: kill_if_set_def tween_kill_nth)

lemma card_kill_existing_inv:
  assumes "hover_inv w"
  shows "hover_inv (card_kill_existing i w)" and "slot_free i (card_kill_existing i w)"
proof -
  show "hover_inv (card_kill_existing i w)"
    using assms by (simp add: card_kill_existing_def hover_inv_kill_if_set)
  show "slot_free i (card_kill_existing i w)"
  proof (cases "cc_hoverTween (cardClosures w ! i)")
    case None
    then show ?thesis by (simp add: slot_free_def card_kill_existing_def)
  next
    case (Some t)
    then show ?thesis
      using kill_if_set_killed[of t w]
      by (simp add: slot_free_def card_kill_existing_def)
  qed
qed

lemma card_new_tween_inv:
  assumes "hover_inv w" and "slot_free i w" and "i < length (cardClosures w)"
  shows "hover_inv (world_of (card_new_tween origin v i w))"
proof (cases "ctl_gsap w")
  case False
  then show ?thesis using assms(1) by (simp add: card_new_tween_def this_gsap_def)
next
  case True
  let ?c = "cardClosures w ! i"
  let ?h = "length (tweens w)"
  let ?t = "new_tween origin (Element (Some (cc_card ?c))) v None None"
  let ?w' = "w\<lparr>tweens := tweens w @ [?t],
               cardClosures := (cardClosures w)[i := ?c\<lparr>cc_hoverTween := Some ?h\<rparr>]\<rparr>"
  have eq: "world_of (card_new_tween origin v i w) = ?w'"
    using True by (simp add: card_new_tween_def this_gsap_def Let_def gsap_to_def)
  have cards: "map cc_card (cardClosures ?w') = map cc_card (cardClosures w)"
    using assms(3) by (simp add: map_update list_update_same_conv)
  have "hover_inv ?w'"
  proof (rule hover_invI)
    show "distinct (map cc_card (cardClosures ?w'))"
      using cards hover_inv_distinct[OF assms(1)] by simp
  next
    fix j
    assume j: "j < length (tweens ?w')"
      and act1: "card_hover_origin (tw_origin (tweens ?w' ! j))"
      and act2: "\<not> tw_killed (tweens ?w' ! j)"
    note act = act1 act2
    show "\<exists>k < length (cardClosures ?w').
            cc_hoverTween (cardClosures ?w' ! k) = Some j \<and>
            tw_target (tweens ?w' ! j) = Element (Some (cc_card (cardClosures ?w' ! k)))"
    proof (cases "j < ?h")
      case True
      then have same: "tweens ?w' ! j = tweens w ! j" by (simp add: nth_append)
      from hover_invD[OF assms(1) True] act same
      obtain k where k: "k < length (cardClosures w)"
        "cc_hoverTween (cardClosures w ! k) = Some j"
        "tw_target (tweens w ! j) = Element (Some (cc_card (cardClosures w ! k)))"
        by auto
      have "k \<noteq> i"
      proof
        assume "k = i"
        with k(2) True assms(2) have "tw_killed (tweens w ! j)" by (simp add: slot_free_def)
        with act same show False by simp
      qed
      with k same show ?thesis by (intro exI[of _ k]) simp
    next
      case False
      with j have "j = ?h" by simp
      then show ?thesis using assms(3)
        by (intro exI[of _ i]) (simp add: new_tween_def)
    qed
  qed
  with eq show ?thesis by simp
qed

lemma card_new_tween_fields [simp]:
  "length (cardClosures (world_of (card_new_tween origin v i w))) = length (cardClosures w)"
  "btnClosures (world_of (card_new_tween origin v i w)) = btnClosures w"
  by (simp_all add: card_new_tween_def this_gsap_def Let_def gsap_to_def)

lemma card_store_inv [simp]:
  "hover_inv (card_store i w) = hover_inv w"
  "cardClosures (card_store i w) = cardClosures w"
  "btnClosures (card_store i w) = btnClosures w"
  by (simp_all add: card_store_def hover_inv_def Let_def)

lemma card_hover_instants_ok:
  assumes "hover_ok n m w" and "i < n"
  shows "\<forall>w' \<in> set (card_hover_instants origin v i w). hover_ok n m w'"
    and "hover_ok n m (last (w # card_hover_instants origin v i w))"
proof -
  let ?w1 = "card_kill_existing i w"
  have 1: "hover_ok n m ?w1" and f: "slot_free i ?w1"
    using assms(1) card_kill_existing_inv[of w i]
    by (simp_all add: hover_ok_def card_kill_existing_def)
  have i: "i < length (cardClosures ?w1)" using 1 assms(2) by (simp add: hover_ok_def)
  have 2: "hover_ok n m (world_of (card_new_tween origin v i ?w1))"
    using 1 card_new_tween_inv[OF _ f i, of origin v] by (simp add: hover_ok_def)
  have 3: "hover_ok n m (card_store i (world_of (card_new_tween origin v i ?w1)))"
    using 2 by (simp add: hover_ok_def)
  show "\<forall>w' \<in> set (card_hover_instants origin v i w). hover_ok n m w'"
    using 1 2 3
    by (cases "card_new_tween origin v i ?w1")
       (auto simp add: card_hover_instants_def Let_def)
  show "hover_ok n m (last (w # card_hover_instants origin v i w))"
    using 1 2 3
    by (cases "card_new_tween origin v i ?w1")
       (auto simp add: card_hover_instants_def Let_def)
qed


lemma hover_inv_other_tween:
  assumes "hover_inv w" and "\<not> card_hover_origin (tw_origin t)"
    and "cardClosures w' = cardClosures w" and "tweens w' = tweens w @ [t]"
  shows "hover_inv w'"
proof (rule hover_invI)
  show "distinct (map cc_card (cardClosures w'))"
    using hover_inv_distinct[OF assms(1)] assms(3) by simp
next
  fix j
  assume j: "j < length (tweens w')"
    and o: "card_hover_origin (tw_origin (tweens w' ! j))"
    and a: "\<not> tw_killed (tweens w' ! j)"
  have "j \<noteq> length (tweens w)" using o assms(2,4) by auto
  with j assms(4) have j': "j < length (tweens w)" by simp
  then have same: "tweens w' ! j = tweens w ! j" using assms(4) by (simp add: nth_append)
  from hover_invD[OF assms(1) j'] o a same assms(3)
  show "\<exists>i < length (cardClosures w').
          cc_hoverTween (cardClosures w' ! i) = Some j \<and>
          tw_target (tweens w' ! j) = Element (Some (cc_card (cardClosures w' ! i)))"
    by simp
qed

lemma btn_button_tween_ok:
  assumes "hover_ok n m w" and "\<not> card_hover_origin origin"
  shows "hover_ok n m (world_of (btn_button_tween origin scale i w))"
proof (cases "ctl_gsap w")
  case False
  then show ?thesis using assms(1) by (simp add: btn_button_tween_def this_gsap_def)
next
  case True
  let ?w' = "world_of (btn_button_tween origin scale i w)"
  let ?t = "new_tween origin (Element (Some (bc_btn (btnClosures w ! i))))
              [(''scale'', Num scale), (''duration'', Num 0.2),
               (''ease'', Str ''power1.out''), (''overwrite'', Str ''auto'')] None None"
  have "hover_inv ?w'"
  proof (rule hover_inv_other_tween[where w = w and t = ?t])
    show "hover_inv w" using assms(1) by (simp add: hover_ok_def)
    show "\<not> card_hover_origin (tw_origin ?t)" using assms(2) by (simp add: new_tween_def)
    show "cardClosures ?w' = cardClosures w"
      using True by (simp add: btn_button_tween_def this_gsap_def Let_def gsap_to_def)
    show "tweens ?w' = tweens w @ [?t]"
      using True by (simp add: btn_button_tween_def this_gsap_def Let_def gsap_to_def)
  qed
  moreover have "length (cardClosures ?w') = n" "length (btnClosures ?w') = m"
    using assms(1) True
    by (simp_all add: hover_ok_def btn_button_tween_def this_gsap_def Let_def gsap_to_def)
  ultimately show ?thesis by (simp add: hover_ok_def)
qed

lemma btn_icon_tween_ok:
  assumes "hover_ok n m w" and "\<not> card_hover_origin origin"
  shows "hover_ok n m (world_of (btn_icon_tween origin x i w))"
proof (cases "ctl_gsap w \<and> bc_icon (btnClosures w ! i) \<noteq> None")
  case False
  then show ?thesis using assms(1)
    by (auto simp add: btn_icon_tween_def this_gsap_def Let_def split: option.splits)
next
  case True
  then obtain icon where icon: "bc_icon (btnClosures w ! i) = Some icon" by auto
  let ?w' = "world_of (btn_icon_tween origin x i w)"
  let ?t = "new_tween origin (Element (Some icon))
              [(''x'', Num x), (''duration'', Num 0.2),
               (''ease'', Str ''power1.out''), (''overwrite'', Str ''auto'')] None None"
  have "hover_inv ?w'"
  proof (rule hover_inv_other_tween[where w = w and t = ?t])
    show "hover_inv w" using assms(1) by (simp add: hover_ok_def)
    show "\<not> card_hover_origin (tw_origin ?t)" using assms(2) by (simp add: new_tween_def)
    show "cardClosures ?w' = cardClosures w"
      using True icon by (simp add: btn_icon_tween_def this_gsap_def Let_def gsap_to_def)
    show "tweens ?w' = tweens w @ [?t]"
      using True icon by (simp add: btn_icon_tween_def this_gsap_def Let_def gsap_to_def)
  qed
  moreover have "length (cardClosures ?w') = n" "length (btnClosures ?w') = m"
    using assms(1) True icon
    by (simp_all add: hover_ok_def btn_icon_tween_def this_gsap_def Let_def gsap_to_def)
  ultimately show ?thesis by (simp add: hover_ok_def)
qed

lemma kill_if_set_ok: "hover_ok n m w \<Longrightarrow> hover_ok n m (kill_if_set h w)"
  by (simp add: hover_ok_def hover_inv_kill_if_set)

lemma btn_hover_instants_ok:
  assumes "hover_ok n m w" and "\<not> card_hover_origin origin"
  shows "\<forall>w' \<in> set (btn_hover_instants origin scale x i w). hover_ok n m w'"
    and "hover_ok n m (last (w # btn_hover_instants origin scale x i w))"
proof -
  let ?w1 = "btn_kill_button i w"
  let ?w2 = "btn_kill_icon i ?w1"
  let ?w3 = "world_of (btn_button_tween origin scale i ?w2)"
  have 1: "hover_ok n m ?w1" using assms(1) by (simp add: btn_kill_button_def kill_if_set_ok)
  have 2: "hover_ok n m ?w2" using 1 by (simp add: btn_kill_icon_def kill_if_set_ok)
  have 3: "hover_ok n m ?w3" using 2 assms(2) by (rule btn_button_tween_ok)
  have 4: "hover_ok n m (world_of (btn_icon_tween origin x i ?w3))"
    using 3 assms(2) by (rule btn_icon_tween_ok)
  show "\<forall>w' \<in> set (btn_hover_instants origin scale x i w). hover_ok n m w'"
    using 1 2 3 4
    by (cases "btn_button_tween origin scale i ?w2")
       (auto simp add: btn_hover_instants_def Let_def)
  show "hover_ok n m (last (w # btn_hover_instants origin scale x i w))"
    using 1 2 3 4
    by (cases "btn_button_tween origin scale i ?w2")
       (auto simp add: btn_hover_instants_def Let_def)
qed

lemma listeners_instants_ok:
  assumes "\<And>i w. hover_ok n m w \<Longrightarrow>
             (\<forall>w' \<in> set (f i w). hover_ok n m w') \<and> hover_ok n m (last (w # f i w))"
    and "hover_ok n m w"
  shows "\<forall>w' \<in> set (listeners_instants f js w). hover_ok n m w'"
  using assms(2)
proof (induction js arbitrary: w)
  case Nil
  then show ?case by simp
next
  case (Cons j js)
  from assms(1)[OF Cons.prems, of j]
  have a: "\<forall>w' \<in> set (f j w). hover_ok n m w'" and b: "hover_ok n m (last (w # f j w))"
    by blast+
  from Cons.IH[OF b] a Cons.prems show ?case by (auto simp del: last.simps)
qed

lemma listeners_instants_nonempty [simp]: "listeners_instants f js w \<noteq> []"
  by (cases js) simp_all

lemma card_listeners_bound: "i \<in> set (card_listeners el w) \<Longrightarrow> i < length (cardClosures w)"
  by (simp add: card_listeners_def)

text \<open>
  The card listeners are run on indices of closures; an index out of range does not occur,
  and the statement below asks for nothing there.
\<close>

lemma card_listeners_instants_ok:
  assumes "hover_ok n m w" and "\<forall>i \<in> set js. i < n"
  shows "\<forall>w' \<in> set (listeners_instants (card_hover_instants origin v) js w). hover_ok n m w'"
  using assms
proof (induction js arbitrary: w)
  case Nil
  then show ?case by simp
next
  case (Cons j js)
  then have j: "j < n" by simp
  note a = card_hover_instants_ok(1)[OF Cons.prems(1) j, of origin v]
  note b = card_hover_instants_ok(2)[OF Cons.prems(1) j, of origin v]
  from Cons.IH[OF b] Cons.prems(2) a Cons.prems(1) show ?case
    by (auto simp del: last.simps)
qed

lemma mouse_instants_ok:
  assumes "hover_ok n m w"
  shows "\<forall>w' \<in> set (mouse_instants ev w). hover_ok n m w'"
proof -
  have idx: "\<forall>i \<in> set (card_listeners el w). i < n" for el
    using assms card_listeners_bound[of _ el w] by (auto simp add: hover_ok_def)
  show ?thesis
  proof (cases ev)
    case (MouseEnter el)
    let ?ws = "listeners_instants (card_hover_instants ''card.mouseenter'' card_enter_vars)
                 (card_listeners el w) w"
    have 1: "\<forall>w' \<in> set ?ws. hover_ok n m w'"
      using assms idx by (rule card_listeners_instants_ok)
    then have l: "hover_ok n m (last ?ws)" by simp
    have 2: "\<forall>w' \<in> set (listeners_instants (btn_hover_instants ''btn.mouseenter'' 1.05 5)
                 (btn_listeners el w) (last ?ws)). hover_ok n m w'"
    proof (rule listeners_instants_ok[OF _ l])
      fix i w assume ok: "hover_ok n m w"
      have no: "\<not> card_hover_origin ''btn.mouseenter''" by (simp add: card_hover_origin_def)
      note r = btn_hover_instants_ok[OF ok no]
      show "(\<forall>w' \<in> set (btn_hover_instants ''btn.mouseenter'' 1.05 5 i w). hover_ok n m w') \<and>
            hover_ok n m (last (w # btn_hover_instants ''btn.mouseenter'' 1.05 5 i w))"
        by (rule conjI, rule r(1), rule r(2))
    qed
    from 1 2 MouseEnter show ?thesis
      by (simp only: mouse_instants.simps Let_def set_append ball_Un)
  next
    case (MouseLeave el)
    let ?ws = "listeners_instants (card_hover_instants ''card.mouseleave'' card_leave_vars)
                 (card_listeners el w) w"
    have 1: "\<forall>w' \<in> set ?ws. hover_ok n m w'"
      using assms idx by (rule card_listeners_instants_ok)
    then have l: "hover_ok n m (last ?ws)" by simp
    have 2: "\<forall>w' \<in> set (listeners_instants (btn_hover_instants ''btn.mouseleave'' 1 0)
                 (btn_listeners el w) (last ?ws)). hover_ok n m w'"
    proof (rule listeners_instants_ok[OF _ l])
      fix i w assume ok: "hover_ok n m w"
      have no: "\<not> card_hover_origin ''btn.mouseleave''" by (simp add: card_hover_origin_def)
      note r = btn_hover_instants_ok[OF ok no]
      show "(\<forall>w' \<in> set (btn_hover_instants ''btn.mouseleave'' 1 0 i w). hover_ok n m w') \<and>
            hover_ok n m (last (w # btn_hover_instants ''btn.mouseleave'' 1 0 i w))"
        by (rule conjI, rule r(1), rule r(2))
    qed
    from 1 2 MouseLeave show ?thesis
      by (simp only: mouse_instants.simps Let_def set_append ball_Un)
  qed
qed

text \<open>The last instant of an event is the world that the dispatch of the event returns.\<close>

lemma card_hover_instants_last:
  "last (w # card_hover_instants origin v i w) =
     world_of (and_then (card_new_tween origin v i (card_kill_existing i w))
                 (\<lambda>w. Inr (card_store i w)))"
  by (cases "card_new_tween origin v i (card_kill_existing i w)")
     (auto simp add: card_hover_instants_def Let_def)

lemma btn_hover_instants_last:
  "last (w # btn_hover_instants origin scale x i w) = world_of (btn_hover origin scale x i w)"
  by (cases "btn_button_tween origin scale i (btn_kill_icon i (btn_kill_button i w))")
     (auto simp add: btn_hover_instants_def btn_hover_def Let_def)

lemma last_after: "ys \<noteq> [] \<Longrightarrow> last (w # xs @ ys) = last ys"
  by simp

lemma listeners_instants_last:
  assumes "\<And>i w. last (w # f i w) = world_of (g i w)"
  shows "last (listeners_instants f js w) = run_listeners g js w"
proof (induction js arbitrary: w)
  case Nil
  show ?case by simp
next
  case (Cons j js)
  have "last (listeners_instants f (j # js) w) =
          last (listeners_instants f js (last (w # f j w)))"
    by (simp only: listeners_instants.simps last_after[OF listeners_instants_nonempty])
  also have "\<dots> = run_listeners g js (world_of (g j w))"
    by (simp only: Cons.IH assms)
  finally show ?case by (simp only: run_listeners.simps)
qed

lemma mouse_instants_nonempty [simp]: "mouse_instants ev w \<noteq> []"
  by (cases ev) (simp_all add: Let_def)

lemma mouse_instants_last: "last (mouse_instants ev w) = mouse ev w"
proof (cases ev)
  case (MouseEnter el)
  have c: "last (listeners_instants (card_hover_instants ''card.mouseenter'' card_enter_vars)
              js w) = run_listeners card_mouseenter js w" for js w
    by (rule listeners_instants_last) (simp only: card_hover_instants_last card_mouseenter_def)
  have b: "last (listeners_instants (btn_hover_instants ''btn.mouseenter'' 1.05 5) js w) =
             run_listeners btn_mouseenter js w" for js w
    by (rule listeners_instants_last) (simp only: btn_hover_instants_last btn_mouseenter_def)
  show ?thesis using MouseEnter
    by (simp only: mouse_instants.simps mouse.simps Let_def
          last_appendR[OF listeners_instants_nonempty] c b)
next
  case (MouseLeave el)
  have c: "last (listeners_instants (card_hover_instants ''card.mouseleave'' card_leave_vars)
              js w) = run_listeners card_mouseleave js w" for js w
    by (rule listeners_instants_last) (simp only: card_hover_instants_last card_mouseleave_def)
  have b: "last (listeners_instants (btn_hover_instants ''btn.mouseleave'' 1 0) js w) =
             run_listeners btn_mouseleave js w" for js w
    by (rule listeners_instants_last) (simp only: btn_hover_instants_last btn_mouseleave_def)
  show ?thesis using MouseLeave
    by (simp only: mouse_instants.simps mouse.simps Let_def
          last_appendR[OF listeners_instants_nonempty] c b)
qed

lemma mouse_ok:
  assumes "hover_ok n m w"
  shows "hover_ok n m (mouse ev w)"
proof -
  have "mouse ev w \<in> set (mouse_instants ev w)"
    using last_in_set[OF mouse_instants_nonempty[of ev w]]
    by (simp only: mouse_instants_last)
  with mouse_instants_ok[OF assms, of ev] show ?thesis by blast
qed

lemma instants_ok:
  "hover_ok n m w \<Longrightarrow> \<forall>w' \<in> set (instants evs w). hover_ok n m w'"
proof (induction evs arbitrary: w)
  case Nil
  then show ?case by simp
next
  case (Cons ev evs)
  from Cons.IH[OF mouse_ok[OF Cons.prems, of ev]] mouse_instants_ok[OF Cons.prems, of ev]
  show ?case by (simp only: instants.simps set_append ball_Un)
qed

lemma bind_card_hover_closures:
  "cardClosures (bind_card_hover xs w) =
     cardClosures w @ map (\<lambda>el. \<lparr>cc_card = el, cc_hoverTween = None\<rparr>) xs"
  by (induction xs arbitrary: w) simp_all

lemma animateCards_establishes:
  assumes "distinct (qsa w0 ''.card'')" and "cardClosures w0 = []"
    and "\<forall>t \<in> set (tweens w0). \<not> card_hover_origin (tw_origin t)"
  shows "hover_inv (world_of (animateCards w0))"
proof (rule hover_invI)
  let ?w = "world_of (animateCards w0)"
  have cl: "cardClosures ?w = [] \<or>
            cardClosures ?w = map (\<lambda>el. \<lparr>cc_card = el, cc_hoverTween = None\<rparr>) (qsa w0 ''.card'')"
    using assms(2)
    by (simp add: animateCards_def this_gsap_def Let_def emit_def gsap_to_def
          ScrollTrigger_batch_def bind_card_hover_closures)
  then show "distinct (map cc_card (cardClosures ?w))"
    using assms(1) by (auto simp add: comp_def)
  have tw: "\<forall>t \<in> set (tweens ?w). \<not> card_hover_origin (tw_origin t)"
    using assms(3)
    by (simp add: animateCards_def this_gsap_def Let_def emit_def gsap_to_def
          ScrollTrigger_batch_def new_tween_def card_hover_origin_def)
  fix j
  assume "j < length (tweens ?w)" and "card_hover_origin (tw_origin (tweens ?w ! j))"
  with tw have False by (metis nth_mem)
  then show "\<exists>i < length (cardClosures ?w).
          cc_hoverTween (cardClosures ?w ! i) = Some j \<and>
          tw_target (tweens ?w ! j) = Element (Some (cc_card (cardClosures ?w ! i)))" ..
qed

text \<open>
  C4. \<open>animateCards\<close> runs once, on a page whose cards are distinct elements and before any
  card listener has run. Then, whatever mouseenter and mouseleave events follow on whatever
  elements, at every instant of the run (after each statement of each listener, the
  buttons' listeners included) every element has at most one live hover tween of the card
  bindings: a card listener kills the tween its closure holds before it starts the next.
\<close>

theorem one_hover_tween_per_card:
  assumes "distinct (qsa w0 ''.card'')" and "cardClosures w0 = []"
    and "\<forall>t \<in> set (tweens w0). \<not> card_hover_origin (tw_origin t)"
  shows "\<forall>w \<in> set (instants evs (world_of (animateCards w0))).
           \<forall>el. length (active_hover_tweens el w) \<le> 1"
proof -
  let ?w1 = "world_of (animateCards w0)"
  have "hover_ok (length (cardClosures ?w1)) (length (btnClosures ?w1)) ?w1"
    using animateCards_establishes[OF assms] by (simp add: hover_ok_def)
  then have "\<forall>w \<in> set (instants evs ?w1).
      hover_ok (length (cardClosures ?w1)) (length (btnClosures ?w1)) w"
    by (rule instants_ok)
  then show ?thesis using hover_inv_at_most_one by (auto simp add: hover_ok_def)
qed


theorem one_hover_tween_per_card_witness:
  "length (active_hover_tweens 1
     (mouse (MouseLeave 1) (mouse (MouseEnter 1) (world_of (animateCards hover_demo_world)))))
   \<le> 1"
proof -
  let ?w1 = "world_of (animateCards hover_demo_world)"
  have d: "distinct (qsa hover_demo_world ''.card'')"
    by (simp add: hover_demo_world_def demo_world_def initial_world_def demo_qsa_def)
  have c: "cardClosures hover_demo_world = []"
    by (simp add: hover_demo_world_def demo_world_def initial_world_def)
  have t: "\<forall>t \<in> set (tweens hover_demo_world). \<not> card_hover_origin (tw_origin t)"
    by (simp add: hover_demo_world_def demo_world_def initial_world_def)
  have "mouse (MouseLeave 1) (mouse (MouseEnter 1) ?w1) \<in>
          set (instants [MouseEnter 1, MouseLeave 1] ?w1)"
    by (simp only: instants.simps set_append list.set) blast
  with one_hover_tween_per_card[OF d c t, of "[MouseEnter 1, MouseLeave 1]"]
  show ?thesis by blast
qed

text \<open>
  On the sample page: after entering and leaving card 1, the tween of the entry (handle 0)
  is killed and the tween of the leave (handle 1) is the live one.
\<close>

lemma hover_demo_run:
  "active_hover_tweens 1
     (mouse (MouseLeave 1) (mouse (MouseEnter 1) (world_of (animateCards hover_demo_world))))
   = [1]"
  by (simp add: hover_demo_world_def demo_world_def initial_world_def demo_qsa_def
        animateCards_def this_gsap_def Let_def emit_def gsap_to_def ScrollTrigger_batch_def
        card_listeners_def btn_listeners_def card_mouseenter_def card_mouseleave_def
        card_new_tween_def card_kill_existing_def card_store_def kill_if_set_def
        tween_kill_def active_hover_tweens_def active_hover_def card_hover_origin_def
        new_tween_def new_trigger_def upt_rec)


section \<open>Cleanup: properties\<close>

lemma keeps_engine_refl [simp]: "keeps_engine w w"
  by (simp add: keeps_engine_def)













lemma kill_each_fields [simp]:
  "length (tweens (kill_each hs w)) = length (tweens w)"
  "triggers (kill_each hs w) = triggers w"
  "ctl_gsap (kill_each hs w) = ctl_gsap w"
  "ctl_ScrollTrigger (kill_each hs w) = ctl_ScrollTrigger w"
  "cardHoverTweens (kill_each hs w) = cardHoverTweens w"
  "trace (kill_each hs w) = trace w"
  by (induction hs arbitrary: w)
     (simp_all add: kill_if_set_def tween_kill_def split: option.splits)



lemma engine_inv_cong:
  assumes "tweens w' = tweens w" and "triggers w' = triggers w"
    and "ctl_gsap w' = ctl_gsap w" and "ctl_ScrollTrigger w' = ctl_ScrollTrigger w"
  shows "engine_inv w' = engine_inv w"
  using assms by (simp add: engine_inv_def)

















section \<open>The resize listener: properties\<close>

lemma resize_after_quiet:
  assumes "timers s = []"
  shows "pending_one (next_id s) (resize_after g s) \<and>
         now (resize_after g s) = now s + g \<and>
         refreshed_at (resize_after g s) = refreshed_at s \<and>
         page (resize_after g s) = page s"
  using assms
  by (simp add: pending_one_def resize_after_def on_resize_def advance_to_def clearTimeout_def
        setTimeout_def Let_def split: option.splits)

lemma resize_after_pending:
  assumes "pending_one k s" and "g < 250"
  shows "pending_one (Suc k) (resize_after g s) \<and>
         now (resize_after g s) = now s + g \<and>
         refreshed_at (resize_after g s) = refreshed_at s \<and>
         page (resize_after g s) = page s"
  using assms
  by (simp add: pending_one_def resize_after_def on_resize_def advance_to_def clearTimeout_def
        setTimeout_def Let_def)

lemma resizes_pending:
  assumes "pending_one k s" and "\<forall>g \<in> set gaps. g < 250"
  shows "pending_one (k + length gaps) (resizes gaps s) \<and>
         now (resizes gaps s) = now s + sum_list gaps \<and>
         refreshed_at (resizes gaps s) = refreshed_at s \<and>
         page (resizes gaps s) = page s"
  using assms
proof (induction gaps arbitrary: k s)
  case Nil
  then show ?case by simp
next
  case (Cons g gaps)
  from Cons.prems have g: "g < 250" and rest: "\<forall>g \<in> set gaps. g < 250" by simp_all
  note st = resize_after_pending[OF Cons.prems(1) g]
  from st have p: "pending_one (Suc k) (resize_after g s)" by blast
  from Cons.IH[OF p rest] st show ?case by simp
qed

lemma settle_pending:
  assumes "pending_one k s"
  shows "refreshed_at (settle s) = refreshed_at s @ [now s + 250] \<and>
         page (settle s) = refresh (page s) \<and> timers (settle s) = [] \<and>
         now (settle s) = now s + 250"
  using assms by (simp add: pending_one_def settle_def fire_def)

text \<open>
  C8. No timeout is pending; a resize event arrives (\<open>g0\<close> ms later), followed by further
  resize events, each less than 250 ms after the one before (\<open>gaps\<close>). After the last event
  exactly one timeout is pending, the one that event set (with a fresh identifier: each
  event has cleared the timeout of the one before), and \<open>refresh\<close> has not been called since
  the burst began. When the clock then runs on, \<open>AnimationController.refresh\<close> is called
  exactly once, 250 ms after the last event, and no timeout is left.
\<close>

theorem resize_burst_refreshes_once:
  assumes "timers s = []" and "\<forall>g \<in> set gaps. g < 250"
  shows "timers (resizes gaps (resize_after g0 s)) =
           [(next_id s + length gaps, now (resizes gaps (resize_after g0 s)) + 250)] \<and>
         now (resizes gaps (resize_after g0 s)) = now s + g0 + sum_list gaps \<and>
         refreshed_at (resizes gaps (resize_after g0 s)) = refreshed_at s \<and>
         page (resizes gaps (resize_after g0 s)) = page s \<and>
         refreshed_at (settle (resizes gaps (resize_after g0 s))) =
           refreshed_at s @ [now s + g0 + sum_list gaps + 250] \<and>
         page (settle (resizes gaps (resize_after g0 s))) = refresh (page s) \<and>
         timers (settle (resizes gaps (resize_after g0 s))) = []"
proof -
  let ?s1 = "resize_after g0 s"
  let ?s' = "resizes gaps ?s1"
  note a = resize_after_quiet[OF assms(1), of g0]
  from a have p1: "pending_one (next_id s) ?s1" by blast
  note b = resizes_pending[OF p1 assms(2)]
  from b have p: "pending_one (next_id s + length gaps) ?s'" by blast
  note c = settle_pending[OF p]
  from a b c p show ?thesis by (simp add: pending_one_def)
qed

theorem resize_burst_refreshes_once_witness:
  "refreshed_at (settle (resizes [100, 249] (resize_after 1000 quiet_sched))) = [1599] \<and>
   page (settle (resizes [100, 249] (resize_after 1000 quiet_sched))) = refresh demo_world"
  using resize_burst_refreshes_once[of quiet_sched "[100, 249]" 1000]
  by (simp add: quiet_sched_def)


end
